theory Spec2Isabelle
  imports Main
begin

section \<open>The module loader of js.cc\<close>

text \<open>
  A shallow embedding of \<^verbatim>\<open>src/js.cc\<close>: the \<^verbatim>\<open>Js\<close> object is a record that
  every member function takes and returns; the script engine, the filesystem, the
  embedded resources and the path operations of the standard library, which js.cc only
  calls, are the fields of an environment record.  An \<^verbatim>\<open>ASSERT\<close> that fails ends
  the process: it is the result \<open>Inl AssertFailed\<close>.  A function returning an empty
  handle returns \<open>None\<close> in the handle's place.
\<close>

subsection \<open>Data\<close>

type_synonym path = string

datatype failure = AssertFailed

text \<open>Script values, as far as \<^verbatim>\<open>Js::ToString\<close> tells them apart. \<open>VError m\<close> is
  the \<^verbatim>\<open>Error\<close> object that \<^verbatim>\<open>isolate->ThrowError(m)\<close> throws; \<open>VOther u t\<close> is any
  other value, with its UTF-8 conversion \<open>u\<close> (\<open>None\<close> when the conversion gives a
  null pointer) and its \<^verbatim>\<open>typeof\<close> string \<open>t\<close>.\<close>

datatype jsvalue =
    VString string
  | VModuleNamespace path
  | VSymbolObject
  | VSymbol jsvalue
  | VError string
  | VOther "string option" string

record jsmodule =
  script_id :: int
  resource_name :: string
  module_requests :: "string list"

record stack_frame =
  frame_script_name :: "jsvalue option"
  frame_function_name :: "jsvalue option"
  frame_line_number :: int

record message =
  message_get :: string
  message_stack_trace :: "stack_frame list option"

datatype delegate_call =
    OnJavascriptException string "string list"
  | OnMainModuleLoaded

datatype promise_state = Pending | Fulfilled jsvalue | Rejected jsvalue

datatype evaluation = EvalThrew jsvalue | EvalPromise promise_state

datatype reaction = MainModuleReaction | ModuleFailureReaction

text \<open>The \<^verbatim>\<open>Js\<close> object with what it points to.  \<open>modules\<close>, \<open>module_path_by_id\<close>,
  \<open>dynamic_imports\<close>, \<open>suppress_next_script_result\<close> and \<open>base_path\<close> are the members
  of the class.  Of the isolate the record keeps the exception the active
  \<^verbatim>\<open>TryCatch\<close> holds, the next fresh script identifier, the promises made by
  \<^verbatim>\<open>Promise::Resolver::New\<close> (a resolver is its index in the list) and the
  continuations attached to a module's evaluation promise (keyed by the module's script
  identifier).  \<open>task_queue\<close> holds the closures posted to \<^verbatim>\<open>task_queue_\<close>, each one
  the \<^verbatim>\<open>path_str\<close> it captured; \<open>delegate_calls\<close> and \<open>file_reads\<close> record the calls
  made to the delegate and to \<^verbatim>\<open>ReadFile\<close>, in order.\<close>

record js =
  base_path :: path
  modules :: "path \<rightharpoonup> jsmodule"
  module_path_by_id :: "int \<rightharpoonup> path"
  dynamic_imports :: "path \<rightharpoonup> nat"
  suppress_next_script_result :: bool
  exception :: "jsvalue option"
  next_script_id :: int
  promises :: "promise_state list"
  reactions :: "(int \<times> reaction) list"
  task_queue :: "path list"
  delegate_calls :: "delegate_call list"
  file_reads :: "path list"

text \<open>A call that a running script makes back into the \<^verbatim>\<open>Js\<close> object: a native
  function calls \<^verbatim>\<open>SuppressNextScriptResult\<close>; an \<^verbatim>\<open>import()\<close> expression reaches
  \<^verbatim>\<open>Js::ImportDynamic\<close> (the callback set in the constructor) with the resource name of
  the referrer and the specifier; the evaluation promise of the module with the given
  script identifier settles and the engine calls the continuations attached to it.\<close>

datatype host_call =
    CallSuppressNextScriptResult
  | CallImportDynamic jsvalue string
  | CallContinuations int promise_state

text \<open>What js.cc calls and does not define.  \<open>ReadFile\<close> gives \<open>Inr content\<close> or
  \<open>Inl error\<close>.  \<open>v8_CompileModule source name\<close> gives the import specifiers of the
  compiled module in source order, or the exception thrown.  \<open>v8_InstantiateModule\<close>
  gives the calls of the resolve callback that the engine makes (specifier and
  referrer) and the exception thrown, if any.  \<open>v8_Evaluate\<close> and \<open>v8_Run\<close> give the
  calls that the script makes back into the \<^verbatim>\<open>Js\<close> object while it runs, in order,
  and what the run ends with: for \<open>v8_Run\<close> the exception thrown (\<open>Inl\<close>) or the value
  of the script (\<open>Inr\<close>).  \<open>v8_ResolverNew\<close> says whether the engine can make one more
  promise.\<close>

record env =
  ReadFile :: "path \<Rightarrow> string + string"
  GzipUncompress :: "string \<Rightarrow> string"
  kEmbeddedConsoleSource :: string
  kEmbeddedWelcomeSource :: string
  remove_filename :: "path \<Rightarrow> path"
  path_append :: "path \<Rightarrow> path \<Rightarrow> path"
  lexically_normal :: "path \<Rightarrow> path"
  relative :: "path \<Rightarrow> path \<Rightarrow> path"
  v8_CompileModule :: "string \<Rightarrow> string \<Rightarrow> jsvalue + string list"
  v8_InstantiateModule :: "js \<Rightarrow> jsmodule \<Rightarrow> (string \<times> jsmodule) list \<times> jsvalue option"
  v8_Evaluate :: "js \<Rightarrow> jsmodule \<Rightarrow> host_call list \<times> evaluation"
  v8_Message :: "jsvalue \<Rightarrow> message"
  v8_ScriptCompile :: "string \<Rightarrow> jsvalue option"
  v8_Run :: "js \<Rightarrow> string \<Rightarrow> host_call list \<times> (jsvalue + jsvalue)"
  v8_ResolverNew :: "js \<Rightarrow> bool"

subsection \<open>The helpers of the anonymous namespace\<close>

text \<open>Modelled from the spec: \<^verbatim>\<open>StartsWith\<close> is declared in util.h, which is not
  among the sources; the spec accepts "only strings starting with ./ or ../".\<close>

definition StartsWith :: "string \<Rightarrow> string \<Rightarrow> bool" where
  "StartsWith name prefix = (take (length prefix) name = prefix)"

definition IsValidImport :: "string \<Rightarrow> bool" where
  "IsValidImport name = (StartsWith name ''./'' \<or> StartsWith name ''../'')"

definition MakeInvalidImportError :: "string \<Rightarrow> string" where
  "MakeInvalidImportError name =
     ''Invalid module name: '' @ [CHR 0x27] @ name @ [CHR 0x27]
       @ ''. Valid imports must begin with ./ or ../''"

text \<open>The loop \<^verbatim>\<open>for (i--; i >= 0; i--)\<close> of \<^verbatim>\<open>AppendModulePath\<close>, entered with the
  decremented index.\<close>

function append_from :: "env \<Rightarrow> path \<Rightarrow> path list \<Rightarrow> int \<Rightarrow> string" where
  "append_from env base paths i =
     (if i \<ge> 0
      then ''       from '' @ relative env (paths ! nat i) base @ [CHR 0x0A]
             @ append_from env base paths (i - 1)
      else [])"
  by pat_completeness auto
termination
  by (relation "measure (\<lambda>(env, base, paths, i). nat (i + 1))") auto

definition AppendModulePath :: "env \<Rightarrow> path \<Rightarrow> path list \<Rightarrow> string" where
  "AppendModulePath env base paths =
     (if paths = [] then []
      else let i = int (length paths) - 1
           in ''    loading '' @ relative env (paths ! nat i) base @ [CHR 0x0A]
                @ append_from env base paths (i - 1))"

subsection \<open>Strings and exceptions\<close>

fun ToString :: "jsvalue \<Rightarrow> string" where
  "ToString (VString s) = s"
| "ToString (VModuleNamespace p) = ''[Module]''"
| "ToString VSymbolObject = ''[SymbolObject]''"
| "ToString (VSymbol d) = ToString d"
| "ToString (VError m) = (if m = [] then ''Error'' else ''Error: '' @ m)"
| "ToString (VOther None t) = t"
| "ToString (VOther (Some u) t) = u"

definition ToStringOr :: "jsvalue option \<Rightarrow> string \<Rightarrow> string" where
  "ToStringOr v or_string = (case v of None \<Rightarrow> or_string | Some x \<Rightarrow> ToString x)"

definition ThrowError :: "js \<Rightarrow> string \<Rightarrow> js" where
  "ThrowError st error = st\<lparr>exception := Some (VError error)\<rparr>"


text \<open>\<^verbatim>\<open>ss << line\<close> for an \<^verbatim>\<open>int\<close>: the decimal digits.\<close>

function string_of_nat :: "nat \<Rightarrow> string" where
  "string_of_nat n =
     (if n < 10 then [char_of (48 + n)]
      else string_of_nat (n div 10) @ [char_of (48 + n mod 10)])"
  by pat_completeness auto
termination
  by (relation "measure id") auto

definition string_of_int :: "int \<Rightarrow> string" where
  "string_of_int i = (if i < 0 then ''-'' @ string_of_nat (nat (- i)) else string_of_nat (nat i))"

definition frame_string :: "stack_frame \<Rightarrow> string" where
  "frame_string frame =
     (let file = ToStringOr (frame_script_name frame) ''<script>'';
          function = ToStringOr (frame_function_name frame) ''<top>'';
          line = frame_line_number frame
      in function @ '' ('' @ file @ '':'' @ string_of_int line @ '')'')"

text \<open>\<^verbatim>\<open>Js::ReportException(v8::Local<v8::Message>)\<close>.\<close>

definition ReportException :: "js \<Rightarrow> message \<Rightarrow> js" where
  "ReportException st msg =
     (let str = message_get msg;
          trace = (case message_stack_trace msg of None \<Rightarrow> []
                   | Some frames \<Rightarrow> map frame_string frames)
      in st\<lparr>delegate_calls := delegate_calls st @ [OnJavascriptException str trace]\<rparr>)"

text \<open>\<^verbatim>\<open>Js::ReportException(v8::Local<v8::Value>)\<close>.\<close>

definition ReportException_value :: "js \<Rightarrow> jsvalue \<Rightarrow> js" where
  "ReportException_value st v =
     st\<lparr>delegate_calls := delegate_calls st @ [OnJavascriptException (ToString v) []]\<rparr>"

definition delegate_OnMainModuleLoaded :: "js \<Rightarrow> js" where
  "delegate_OnMainModuleLoaded st =
     st\<lparr>delegate_calls := delegate_calls st @ [OnMainModuleLoaded]\<rparr>"

subsection \<open>Continuations\<close>

text \<open>\<^verbatim>\<open>OnModuleFailure\<close>, \<^verbatim>\<open>OnMainModuleResolve\<close> and \<^verbatim>\<open>OnMainModuleFailure\<close>; \<open>info\<close> is
  the argument list of the call.\<close>

definition OnModuleFailure :: "js \<Rightarrow> jsvalue list \<Rightarrow> js" where
  "OnModuleFailure st info =
     (if length info \<ge> 1 then ReportException_value st (info ! 0) else st)"

definition OnMainModuleResolve :: "js \<Rightarrow> jsvalue list \<Rightarrow> js" where
  "OnMainModuleResolve st info = delegate_OnMainModuleLoaded st"

definition OnMainModuleFailure :: "js \<Rightarrow> jsvalue list \<Rightarrow> js" where
  "OnMainModuleFailure st info = delegate_OnMainModuleLoaded (OnModuleFailure st info)"

text \<open>What the engine does when the evaluation promise of the module with script
  identifier \<open>i\<close> settles: a promise calls the continuation attached for its outcome
  with the value it settled to, once, in the order of attachment.\<close>

fun run_reaction :: "promise_state \<Rightarrow> js \<Rightarrow> reaction \<Rightarrow> js" where
  "run_reaction (Fulfilled v) st MainModuleReaction = OnMainModuleResolve st [v]"
| "run_reaction (Rejected v) st MainModuleReaction = OnMainModuleFailure st [v]"
| "run_reaction (Rejected v) st ModuleFailureReaction = OnModuleFailure st [v]"
| "run_reaction outcome st r = st"

definition settle_module_promise :: "js \<Rightarrow> int \<Rightarrow> promise_state \<Rightarrow> js" where
  "settle_module_promise st i outcome =
     (if outcome = Pending then st
      else foldl (run_reaction outcome)
             (st\<lparr>reactions := filter (\<lambda>(j, r). j \<noteq> i) (reactions st)\<rparr>)
             (map snd (filter (\<lambda>(j, r). j = i) (reactions st))))"

subsection \<open>Dynamic imports\<close>

text \<open>\<^verbatim>\<open>Resolver::Reject\<close> and \<^verbatim>\<open>Resolver::Resolve\<close> settle a promise that is still
  pending.\<close>

definition settle_resolver :: "js \<Rightarrow> nat \<Rightarrow> promise_state \<Rightarrow> js" where
  "settle_resolver st resolver outcome =
     (if resolver < length (promises st) \<and> promises st ! resolver = Pending
      then st\<lparr>promises := (promises st)[resolver := outcome]\<rparr>
      else st)"

text \<open>\<^verbatim>\<open>Js::ImportDynamic(referrer, specifier)\<close>; \<open>referrer\<close> stands for
  \<^verbatim>\<open>referrer->GetResourceName()\<close>.  The result is the promise returned, or \<open>None\<close>
  for the empty \<^verbatim>\<open>MaybeLocal\<close>.\<close>

definition ImportDynamic ::
  "env \<Rightarrow> js \<Rightarrow> jsvalue \<Rightarrow> string \<Rightarrow> failure + js \<times> nat option" where
  "ImportDynamic env st referrer specifier =
     (if \<not> v8_ResolverNew env st then Inr (st, None)
      else
        let resolver = length (promises st);
            st1 = st\<lparr>promises := promises st @ [Pending]\<rparr>
        in case referrer of
             VString ref \<Rightarrow>
               let spec = specifier
               in if \<not> IsValidImport spec
                  then Inr (settle_resolver st1 resolver
                              (Rejected (VString (MakeInvalidImportError spec))),
                            Some resolver)
                  else if ref \<noteq> ''<console>'' \<and> modules st1 ref = None
                  then Inl AssertFailed
                  else
                    let dir = (if ref = ''<console>'' then base_path st1
                               else remove_filename env ref);
                        path_str = lexically_normal env (path_append env dir spec)
                    in (case dynamic_imports st1 path_str of
                          Some existing \<Rightarrow> Inr (st1, Some existing)
                        | None \<Rightarrow>
                            Inr (st1\<lparr>dynamic_imports :=
                                       (dynamic_imports st1)(path_str \<mapsto> resolver),
                                     task_queue := task_queue st1 @ [path_str]\<rparr>,
                                 Some resolver))
           | _ \<Rightarrow> Inl AssertFailed)"

subsection \<open>Calls made by a running script\<close>

definition SuppressNextScriptResult :: "js \<Rightarrow> js" where
  "SuppressNextScriptResult st = st\<lparr>suppress_next_script_result := True\<rparr>"

text \<open>The calls of one run, applied in order.  An assertion that fails in one of them
  ends the process.\<close>

fun host_calls :: "env \<Rightarrow> js \<Rightarrow> host_call list \<Rightarrow> failure + js" where
  "host_calls env st [] = Inr st"
| "host_calls env st (CallSuppressNextScriptResult # calls) =
     host_calls env (SuppressNextScriptResult st) calls"
| "host_calls env st (CallImportDynamic referrer specifier # calls) =
     (case ImportDynamic env st referrer specifier of
        Inl a \<Rightarrow> Inl a
      | Inr (st1, promise) \<Rightarrow> host_calls env st1 calls)"
| "host_calls env st (CallContinuations i outcome # calls) =
     host_calls env (settle_module_promise st i outcome) calls"

subsection \<open>Inline scripts\<close>

text \<open>\<^verbatim>\<open>Js::ExecuteScript\<close>.  The \<^verbatim>\<open>TryCatch\<close> of the function starts empty and is
  empty again when the function has returned.\<close>

definition ExecuteScript :: "env \<Rightarrow> js \<Rightarrow> string \<Rightarrow> failure + js \<times> string option" where
  "ExecuteScript env st source =
     (let st0 = st\<lparr>exception := None\<rparr>
      in case v8_ScriptCompile env source of
           Some exc \<Rightarrow>
             Inr ((ReportException (st0\<lparr>exception := Some exc\<rparr>) (v8_Message env exc))
                    \<lparr>exception := None\<rparr>, None)
         | None \<Rightarrow>
             (case v8_Run env st0 source of
                (calls, result) \<Rightarrow>
                  (case host_calls env st0 calls of
                     Inl a \<Rightarrow> Inl a
                   | Inr st1 \<Rightarrow>
                       (case result of
                          Inl exc \<Rightarrow>
                            Inr ((ReportException
                                    (st1\<lparr>exception := Some exc,
                                         suppress_next_script_result := False\<rparr>)
                                    (v8_Message env exc))\<lparr>exception := None\<rparr>, None)
                        | Inr v \<Rightarrow>
                            if suppress_next_script_result st1
                            then Inr (st1\<lparr>suppress_next_script_result := False\<rparr>, None)
                            else Inr (st1, Some (ToString v))))))"

subsection \<open>Loading a module graph\<close>

text \<open>\<^verbatim>\<open>Js::LoadModuleSource\<close>.  \<^verbatim>\<open>MakeString\<close> keeps the bytes.\<close>

definition LoadModuleSource :: "env \<Rightarrow> js \<Rightarrow> path \<Rightarrow> path list \<Rightarrow> js \<times> string option" where
  "LoadModuleSource env st path paths =
     (if path = ''--console'' then (st, Some (GzipUncompress env (kEmbeddedConsoleSource env)))
      else if path = ''--welcome'' then (st, Some (GzipUncompress env (kEmbeddedWelcomeSource env)))
      else if take 2 path = ''--'' then (ThrowError st (''Invalid module name: '' @ path), None)
      else let st1 = st\<lparr>file_reads := file_reads st @ [path]\<rparr>
           in case ReadFile env path of
                Inr content \<Rightarrow> (st1, Some content)
              | Inl error \<Rightarrow>
                  (ThrowError st1
                     (error @ [CHR 0x0A] @ AppendModulePath env (base_path st1) paths), None))"

text \<open>\<^verbatim>\<open>Js::CompileModule\<close>.  The engine numbers the module it compiles with a script
  identifier it has not given out before.  On failure the inner \<^verbatim>\<open>TryCatch\<close> is reset
  and the decorated error is thrown and rethrown to the caller.\<close>

definition CompileModule ::
  "env \<Rightarrow> js \<Rightarrow> string \<Rightarrow> path \<Rightarrow> path list \<Rightarrow> js \<times> jsmodule option" where
  "CompileModule env st source path paths =
     (case v8_CompileModule env source path of
        Inr requests \<Rightarrow>
          (st\<lparr>next_script_id := next_script_id st + 1\<rparr>,
           Some \<lparr>script_id = next_script_id st, resource_name = path,
                 module_requests = requests\<rparr>)
      | Inl exc \<Rightarrow>
          (ThrowError st
             (ToString exc @ [CHR 0x0A] @ AppendModulePath env (base_path st) paths), None))"

text \<open>\<^verbatim>\<open>Js::LoadModuleTree\<close>, and the loop over the module requests as
  \<open>load_requests\<close> (its result \<open>True\<close> when the loop ran to its end).  The recursion
  follows the import graph, which need not be finite: the first argument is fuel, and
  \<open>None\<close> says it ran out.  \<^verbatim>\<open>paths\<close> is pushed before and popped after the recursive
  call, whatever it returns: the callee gets \<open>paths @ [subpath]\<close> and the caller goes on
  with \<open>paths\<close>.\<close>

fun LoadModuleTree ::
    "nat \<Rightarrow> env \<Rightarrow> js \<Rightarrow> path \<Rightarrow> path list \<Rightarrow> (failure + js \<times> jsmodule option) option"
  and load_requests ::
    "nat \<Rightarrow> env \<Rightarrow> js \<Rightarrow> path \<Rightarrow> string list \<Rightarrow> path list \<Rightarrow> (failure + js \<times> bool) option"
where
  "LoadModuleTree 0 env st path paths = None"
| "LoadModuleTree (Suc n) env st path paths =
     (case modules st path of
        Some m \<Rightarrow> Some (Inr (st, Some m))
      | None \<Rightarrow>
          (case LoadModuleSource env st path paths of
             (st1, None) \<Rightarrow> Some (Inr (st1, None))
           | (st1, Some source) \<Rightarrow>
               (case CompileModule env st1 source path paths of
                  (st2, None) \<Rightarrow> Some (Inr (st2, None))
                | (st2, Some m) \<Rightarrow>
                    if module_path_by_id st2 (script_id m) \<noteq> None then Some (Inl AssertFailed)
                    else
                      let st3 = st2\<lparr>modules := (modules st2)(path \<mapsto> m),
                                     module_path_by_id :=
                                       (module_path_by_id st2)(script_id m \<mapsto> path)\<rparr>;
                          dir = remove_filename env path
                      in (case load_requests n env st3 dir (module_requests m) paths of
                            None \<Rightarrow> None
                          | Some (Inl a) \<Rightarrow> Some (Inl a)
                          | Some (Inr (st4, completed)) \<Rightarrow>
                              Some (Inr (st4, if completed then Some m else None))))))"
| "load_requests n env st dir [] paths = Some (Inr (st, True))"
| "load_requests n env st dir (spec # requests) paths =
     (if \<not> IsValidImport spec
      then Some (Inr (ThrowError st (MakeInvalidImportError spec), False))
      else
        let subpath = lexically_normal env (path_append env dir spec)
        in if modules st subpath = None
           then (case LoadModuleTree n env st subpath (paths @ [subpath]) of
                   None \<Rightarrow> None
                 | Some (Inl a) \<Rightarrow> Some (Inl a)
                 | Some (Inr (st1, r)) \<Rightarrow>
                     if r = None then Some (Inr (st1, False))
                     else load_requests n env st1 dir requests paths)
           else load_requests n env st dir requests paths)"

text \<open>\<^verbatim>\<open>Js::ResolveModule\<close>, the callback handed to the engine's instantiation.\<close>

definition ResolveModule :: "env \<Rightarrow> js \<Rightarrow> string \<Rightarrow> jsmodule \<Rightarrow> failure + jsmodule" where
  "ResolveModule env st specifier referrer =
     (case module_path_by_id st (script_id referrer) of
        None \<Rightarrow> Inl AssertFailed
      | Some referrer_path \<Rightarrow>
          let referrer_dir = remove_filename env referrer_path;
              path = lexically_normal env (path_append env referrer_dir specifier)
          in (case modules st path of
                None \<Rightarrow> Inl AssertFailed
              | Some m \<Rightarrow> Inr m))"


subsection \<open>Activating a loaded graph\<close>

text \<open>Whether every call of the resolve callback passes the assertions of
  \<open>ResolveModule\<close>.\<close>

definition resolves_ok :: "env \<Rightarrow> js \<Rightarrow> (string \<times> jsmodule) list \<Rightarrow> bool" where
  "resolves_ok env st resolves =
     list_all (\<lambda>(specifier, referrer).
                 case ResolveModule env st specifier referrer of
                   Inl a \<Rightarrow> False
                 | Inr m \<Rightarrow> True) resolves"

text \<open>\<^verbatim>\<open>Js::LoadModuleByPath\<close>.  A failed instantiation and a failed evaluation leave
  the engine's exception in the active \<^verbatim>\<open>TryCatch\<close>; a rejected promise is thrown with
  \<^verbatim>\<open>ThrowException\<close>.  \<^verbatim>\<open>promise->Then\<close> and \<^verbatim>\<open>promise->Catch\<close> attach the
  continuations to the evaluation promise of the module.\<close>

definition LoadModuleByPath ::
  "nat \<Rightarrow> env \<Rightarrow> js \<Rightarrow> path \<Rightarrow> bool \<Rightarrow> (failure + js \<times> jsmodule option) option" where
  "LoadModuleByPath fuel env st path is_main_module =
     (case LoadModuleTree fuel env st path [path] of
        None \<Rightarrow> None
      | Some (Inl a) \<Rightarrow> Some (Inl a)
      | Some (Inr (st1, None)) \<Rightarrow> Some (Inr (st1, None))
      | Some (Inr (st1, Some m)) \<Rightarrow>
          (case v8_InstantiateModule env st1 m of
             (resolves, instantiated) \<Rightarrow>
               if \<not> resolves_ok env st1 resolves then Some (Inl AssertFailed)
               else
                 (case instantiated of
                    Some exc \<Rightarrow> Some (Inr (st1\<lparr>exception := Some exc\<rparr>, None))
                  | None \<Rightarrow>
                      (case v8_Evaluate env st1 m of
                         (calls, evaluated) \<Rightarrow>
                           (case host_calls env st1 calls of
                              Inl a \<Rightarrow> Some (Inl a)
                            | Inr st2 \<Rightarrow>
                                (case evaluated of
                                   EvalThrew exc \<Rightarrow>
                                     Some (Inr (st2\<lparr>exception := Some exc\<rparr>, None))
                                 | EvalPromise (Rejected v) \<Rightarrow>
                                     Some (Inr (st2\<lparr>exception := Some v\<rparr>, None))
                                 | EvalPromise Pending \<Rightarrow>
                                     Some (Inr
                                       (st2\<lparr>reactions := reactions st2 @
                                           [(script_id m,
                                             if is_main_module then MainModuleReaction
                                             else ModuleFailureReaction)]\<rparr>,
                                        Some m))
                                 | EvalPromise (Fulfilled v) \<Rightarrow>
                                     Some (Inr
                                       (if is_main_module
                                        then delegate_OnMainModuleLoaded st2 else st2,
                                        Some m))))))))"

text \<open>\<^verbatim>\<open>Js::LoadMainModule\<close>.  Its \<^verbatim>\<open>TryCatch\<close> starts empty and is empty again
  when the function has returned; \<open>main_module_path\<close> is the initialiser of its local
  \<^verbatim>\<open>path\<close>.\<close>

definition main_module_path :: "env \<Rightarrow> path \<Rightarrow> string \<Rightarrow> path" where
  "main_module_path env base name =
     (if take 2 name = ''--'' then name
      else lexically_normal env (path_append env base name))"

definition LoadMainModule :: "nat \<Rightarrow> env \<Rightarrow> js \<Rightarrow> string \<Rightarrow> (failure + js) option" where
  "LoadMainModule fuel env st name =
     (let st0 = st\<lparr>exception := None\<rparr>;
          path = main_module_path env (base_path st0) name
      in case LoadModuleByPath fuel env st0 path True of
           None \<Rightarrow> None
         | Some (Inl a) \<Rightarrow> Some (Inl a)
         | Some (Inr (st1, None)) \<Rightarrow>
             (case exception st1 of
                None \<Rightarrow> Some (Inl AssertFailed)
              | Some exc \<Rightarrow>
                  Some (Inr ((delegate_OnMainModuleLoaded
                                (ReportException st1 (v8_Message env exc)))
                               \<lparr>exception := None\<rparr>)))
         | Some (Inr (st1, Some m)) \<Rightarrow>
             if exception st1 \<noteq> None then Some (Inl AssertFailed) else Some (Inr st1))"

subsection \<open>The posted closure\<close>

text \<open>\<^verbatim>\<open>Js::ImportDynamic(std::string path_str)\<close>.  Its \<^verbatim>\<open>TryCatch\<close> starts empty
  and is empty again when the function has returned.\<close>

definition ImportDynamic_path :: "nat \<Rightarrow> env \<Rightarrow> js \<Rightarrow> string \<Rightarrow> (failure + js) option" where
  "ImportDynamic_path fuel env st path_str =
     (let st0 = st\<lparr>exception := None\<rparr>
      in case dynamic_imports st0 path_str of
           None \<Rightarrow> Some (Inl AssertFailed)
         | Some resolver \<Rightarrow>
             let st1 = st0\<lparr>dynamic_imports := (dynamic_imports st0)(path_str := None)\<rparr>
             in (case LoadModuleByPath fuel env st1 path_str False of
                   None \<Rightarrow> None
                 | Some (Inl a) \<Rightarrow> Some (Inl a)
                 | Some (Inr (st2, None)) \<Rightarrow>
                     (case exception st2 of
                        None \<Rightarrow> Some (Inl AssertFailed)
                      | Some exc \<Rightarrow>
                          Some (Inr (settle_resolver (st2\<lparr>exception := None\<rparr>) resolver
                                       (Rejected exc))))
                 | Some (Inr (st2, Some m)) \<Rightarrow>
                     Some (Inr ((settle_resolver st2 resolver
                                   (Fulfilled (VModuleNamespace (resource_name m))))
                                  \<lparr>exception := None\<rparr>))))"

text \<open>Modelled from the spec: the task queue (\<^verbatim>\<open>TaskQueue\<close>, not among the sources)
  is "cooperative, single-consumer, FIFO": a turn takes the oldest closure off the
  queue and runs it.\<close>

definition run_next_task :: "nat \<Rightarrow> env \<Rightarrow> js \<Rightarrow> (failure + js) option" where
  "run_next_task fuel env st =
     (case task_queue st of
        [] \<Rightarrow> Some (Inr st)
      | path_str # rest \<Rightarrow> ImportDynamic_path fuel env (st\<lparr>task_queue := rest\<rparr>) path_str)"

subsection \<open>The session at its creation\<close>

text \<open>\<^verbatim>\<open>Js::Js\<close>: the maps are empty and the flag is false; the isolate is new.\<close>

definition Js_new :: "path \<Rightarrow> js" where
  "Js_new base =
     \<lparr>base_path = base, modules = Map.empty, module_path_by_id = Map.empty,
      dynamic_imports = Map.empty, suppress_next_script_result = False,
      exception = None, next_script_id = 0, promises = [], reactions = [],
      task_queue = [], delegate_calls = [], file_reads = []\<rparr>"

subsection \<open>The import graph and the invariants of the session\<close>

text \<open>The paths that \<open>load_requests\<close> may descend into from a module at \<open>path\<close>: its
  valid import specifiers, resolved against its directory.  The source that
  \<open>LoadModuleSource\<close> returns depends neither on the session nor on the load stack.\<close>

definition import_edges :: "env \<Rightarrow> path \<Rightarrow> path list" where
  "import_edges env path =
     (case snd (LoadModuleSource env (Js_new []) path []) of
        None \<Rightarrow> []
      | Some source \<Rightarrow>
          (case v8_CompileModule env source path of
             Inl exc \<Rightarrow> []
           | Inr requests \<Rightarrow>
               map (\<lambda>spec. lexically_normal env
                              (path_append env (remove_filename env path) spec))
                   (filter IsValidImport requests)))"

definition import_closed :: "env \<Rightarrow> path set \<Rightarrow> bool" where
  "import_closed env S = (\<forall>p \<in> S. set (import_edges env p) \<subseteq> S)"

text \<open>The two indexes agree, and the engine has given out every identifier in use.\<close>

definition registry_ok :: "js \<Rightarrow> bool" where
  "registry_ok st =
     ((\<forall>p m. modules st p = Some m \<longrightarrow> module_path_by_id st (script_id m) = Some p)
      \<and> (\<forall>i p. module_path_by_id st i = Some p \<longrightarrow>
                (\<exists>m. modules st p = Some m \<and> script_id m = i))
      \<and> (\<forall>i p. module_path_by_id st i = Some p \<longrightarrow> i < next_script_id st))"

text \<open>Every entry of the two indexes of \<open>st\<close> is an entry of \<open>st'\<close>.\<close>

definition registry_kept :: "js \<Rightarrow> js \<Rightarrow> bool" where
  "registry_kept st st' =
     (modules st \<subseteq>\<^sub>m modules st' \<and> module_path_by_id st \<subseteq>\<^sub>m module_path_by_id st')"

text \<open>What a graph load leaves alone.\<close>

definition loader_frame :: "js \<Rightarrow> js \<Rightarrow> bool" where
  "loader_frame st st' =
     (base_path st' = base_path st \<and> dynamic_imports st' = dynamic_imports st
      \<and> suppress_next_script_result st' = suppress_next_script_result st
      \<and> promises st' = promises st \<and> reactions st' = reactions st
      \<and> task_queue st' = task_queue st \<and> delegate_calls st' = delegate_calls st)"


subsection \<open>A small environment for the examples\<close>

text \<open>Lexical POSIX paths, enough for the examples: components are split at the
  slashes, \<^verbatim>\<open>.\<close> is dropped and \<^verbatim>\<open>..\<close> removes the component before it.\<close>

fun split_on :: "char \<Rightarrow> string \<Rightarrow> string \<Rightarrow> string list" where
  "split_on sep acc [] = [acc]"
| "split_on sep acc (c # cs) =
     (if c = sep then acc # split_on sep [] cs else split_on sep (acc @ [c]) cs)"

fun normal_components :: "string list \<Rightarrow> string list \<Rightarrow> string list" where
  "normal_components stack [] = rev stack"
| "normal_components stack (c # cs) =
     (if c = [] \<or> c = ''.'' then normal_components stack cs
      else if c = ''..'' then
        (case stack of
           [] \<Rightarrow> normal_components [c] cs
         | t # below \<Rightarrow>
             if t = ''..'' then normal_components (c # stack) cs
             else normal_components below cs)
      else normal_components (c # stack) cs)"

fun join_path :: "string list \<Rightarrow> string" where
  "join_path [] = []"
| "join_path [c] = c"
| "join_path (c # cs) = c @ ''/'' @ join_path cs"

definition posix_lexically_normal :: "path \<Rightarrow> path" where
  "posix_lexically_normal p =
     (if take 1 p = ''/''
      then ''/'' @ join_path (filter (\<lambda>c. c \<noteq> ''..'')
                                (normal_components [] (split_on (CHR ''/'') [] p)))
      else join_path (normal_components [] (split_on (CHR ''/'') [] p)))"

definition posix_remove_filename :: "path \<Rightarrow> path" where
  "posix_remove_filename p = rev (dropWhile (\<lambda>c. c \<noteq> CHR ''/'') (rev p))"

definition posix_path_append :: "path \<Rightarrow> path \<Rightarrow> path" where
  "posix_path_append d p =
     (if take 1 p = ''/'' then p
      else if d = [] \<or> last d = CHR ''/'' then d @ p
      else d @ ''/'' @ p)"

fun strip_common :: "string list \<Rightarrow> string list \<Rightarrow> string list \<times> string list" where
  "strip_common (a # as) (b # bs) =
     (if a = b then strip_common as bs else (a # as, b # bs))"
| "strip_common as bs = (as, bs)"

definition posix_relative :: "path \<Rightarrow> path \<Rightarrow> path" where
  "posix_relative p base =
     (case strip_common (normal_components [] (split_on (CHR ''/'') [] p))
                        (normal_components [] (split_on (CHR ''/'') [] base)) of
        (ps, bs) \<Rightarrow>
          if ps = [] \<and> bs = [] then ''.''
          else join_path (map (\<lambda>b. ''..'') bs @ ps))"

text \<open>The files of the examples.  A source is the list of its import specifiers, one
  on each line.  \<^verbatim>\<open>main.js\<close> imports \<^verbatim>\<open>util.js\<close>, which imports
  \<^verbatim>\<open>helpers.js\<close>, which does not exist; \<^verbatim>\<open>a.js\<close> and \<^verbatim>\<open>b.js\<close> import each
  other; \<^verbatim>\<open>bad.js\<close> imports a bare name; the others import nothing.  The body of
  \<^verbatim>\<open>async.js\<close> is still pending when its evaluation returns, that of
  \<^verbatim>\<open>reject.js\<close> has failed by then, and \<^verbatim>\<open>importer.js\<close> asks for
  \<^verbatim>\<open>leaf.js\<close> with \<^verbatim>\<open>import()\<close>.\<close>

definition demo_files :: "(path \<times> string) list" where
  "demo_files =
     [(''/app/main.js'', ''./util.js''),
      (''/app/util.js'', ''./helpers.js''),
      (''/app/a.js'', ''./b.js''),
      (''/app/b.js'', ''./a.js''),
      (''/app/bad.js'', ''lodash''),
      (''/app/leaf.js'', []),
      (''/app/async.js'', []),
      (''/app/reject.js'', []),
      (''/app/importer.js'', [])]"

definition demo_undefined :: jsvalue where
  "demo_undefined = VOther (Some ''undefined'') ''undefined''"

definition demo_env :: env where
  "demo_env =
     \<lparr>ReadFile = (\<lambda>p. case map_of demo_files p of
                          Some content \<Rightarrow> Inr content
                        | None \<Rightarrow> Inl (''Failed to read file: '' @ p)),
      GzipUncompress = drop 3,
      kEmbeddedConsoleSource = ''gz:'',
      kEmbeddedWelcomeSource = ''gz:./leaf.js'',
      remove_filename = posix_remove_filename,
      path_append = posix_path_append,
      lexically_normal = posix_lexically_normal,
      relative = posix_relative,
      v8_CompileModule = (\<lambda>source name.
         if source = ''syntax error''
         then Inl (VOther (Some ''SyntaxError: Unexpected identifier'') ''object'')
         else Inr (filter (\<lambda>l. l \<noteq> []) (split_on (CHR 0x0A) [] source))),
      v8_InstantiateModule = (\<lambda>st m.
         (map (\<lambda>specifier. (specifier, m)) (module_requests m), None)),
      v8_Evaluate = (\<lambda>st m.
         if resource_name m = ''/app/async.js'' then ([], EvalPromise Pending)
         else if resource_name m = ''/app/reject.js''
         then ([], EvalPromise (Rejected (VError ''boom'')))
         else if resource_name m = ''/app/importer.js''
         then ([CallImportDynamic (VString ''/app/importer.js'') ''./leaf.js''],
               EvalPromise (Fulfilled demo_undefined))
         else ([], EvalPromise (Fulfilled demo_undefined))),
      v8_Message = (\<lambda>v. \<lparr>message_get = ''Uncaught '' @ ToString v,
                          message_stack_trace = None\<rparr>),
      v8_ScriptCompile = (\<lambda>source.
         if source = ''syntax error''
         then Some (VOther (Some ''SyntaxError: Unexpected identifier'') ''object'')
         else None),
      v8_Run = (\<lambda>st source.
         if source = ''suppress()'' then ([CallSuppressNextScriptResult], Inr demo_undefined)
         else if source = ''throw'' then ([], Inl (VError ''thrown''))
         else if source = ''import''
         then ([CallImportDynamic (VString ''<console>'') ''./a.js''],
               Inr (VOther (Some ''[object Promise]'') ''object''))
         else ([], Inr (VString source))),
      v8_ResolverNew = (\<lambda>st. True)\<rparr>"

text \<open>What the calls of a running script leave alone, and what they only add to.\<close>

definition script_frame :: "js \<Rightarrow> js \<Rightarrow> bool" where
  "script_frame st st' =
     (base_path st' = base_path st \<and> modules st' = modules st
      \<and> module_path_by_id st' = module_path_by_id st
      \<and> next_script_id st' = next_script_id st \<and> file_reads st' = file_reads st
      \<and> exception st' = exception st
      \<and> (suppress_next_script_result st \<longrightarrow> suppress_next_script_result st')
      \<and> dynamic_imports st \<subseteq>\<^sub>m dynamic_imports st'
      \<and> (\<exists>more. promises st' = promises st @ more)
      \<and> (\<exists>more. task_queue st' = task_queue st @ more)
      \<and> (\<exists>more. delegate_calls st' = delegate_calls st @ more))"

text \<open>The session after \<^verbatim>\<open>leaf.js\<close> has been loaded.\<close>

definition demo_leaf_loaded :: js where
  "demo_leaf_loaded =
     (Js_new ''/app'')
       \<lparr>modules := [''/app/leaf.js'' \<mapsto>
                      \<lparr>script_id = 0, resource_name = ''/app/leaf.js'', module_requests = []\<rparr>],
        module_path_by_id := [0 \<mapsto> ''/app/leaf.js''],
        next_script_id := 1,
        file_reads := [''/app/leaf.js'']\<rparr>"


text \<open>The session after \<^verbatim>\<open>leaf.js\<close> has been loaded and then requested by a dynamic
  import from the console, before the posted closure has run.\<close>

definition demo_leaf_requested :: js where
  "demo_leaf_requested =
     demo_leaf_loaded\<lparr>promises := [Pending],
                      dynamic_imports := [''/app/leaf.js'' \<mapsto> 0],
                      task_queue := [''/app/leaf.js'']\<rparr>"

subsection \<open>Abbreviations for the statements\<close>

abbreviation resolve_import :: "env \<Rightarrow> path \<Rightarrow> string \<Rightarrow> path" where
  "resolve_import env dir spec \<equiv> lexically_normal env (path_append env dir spec)"

abbreviation registered :: "js \<Rightarrow> path \<Rightarrow> jsmodule \<Rightarrow> js" where
  "registered st p m \<equiv>
     st\<lparr>modules := (modules st)(p \<mapsto> m),
        module_path_by_id := (module_path_by_id st)(script_id m \<mapsto> p)\<rparr>"

abbreviation dynamic_import_path :: "env \<Rightarrow> js \<Rightarrow> string \<Rightarrow> string \<Rightarrow> path" where
  "dynamic_import_path env st ref spec \<equiv>
     resolve_import env
       (if ref = ''<console>'' then base_path st else remove_filename env ref) spec"

section \<open>Properties of the graph load\<close>

subsection \<open>Case analysis of the loader\<close>

lemma LoadModuleTree_Suc_cases [consumes 1, case_names known no_source no_compile assert requests]:
  assumes "LoadModuleTree (Suc n) env st p ps = Some res"
  obtains
    (known) m where "modules st p = Some m" "res = Inr (st, Some m)"
  | (no_source) st1 where "modules st p = None"
      "LoadModuleSource env st p ps = (st1, None)" "res = Inr (st1, None)"
  | (no_compile) st1 src st2 where "modules st p = None"
      "LoadModuleSource env st p ps = (st1, Some src)"
      "CompileModule env st1 src p ps = (st2, None)" "res = Inr (st2, None)"
  | (assert) st1 src st2 m where "modules st p = None"
      "LoadModuleSource env st p ps = (st1, Some src)"
      "CompileModule env st1 src p ps = (st2, Some m)"
      "module_path_by_id st2 (script_id m) \<noteq> None" "res = Inl AssertFailed"
  | (requests) st1 src st2 m lres where "modules st p = None"
      "LoadModuleSource env st p ps = (st1, Some src)"
      "CompileModule env st1 src p ps = (st2, Some m)"
      "module_path_by_id st2 (script_id m) = None"
      "load_requests n env (registered st2 p m) (remove_filename env p) (module_requests m) ps
         = Some lres"
      "res = (case lres of Inl a \<Rightarrow> Inl a
              | Inr (st4, completed) \<Rightarrow> Inr (st4, if completed then Some m else None))"
proof (cases "modules st p")
  case (Some m)
  with assms known show ?thesis by simp
next
  case None
  obtain st1 so where s: "LoadModuleSource env st p ps = (st1, so)" by fastforce
  show ?thesis
  proof (cases so)
    case None
    with assms \<open>modules st p = None\<close> s no_source show ?thesis by simp
  next
    case (Some src)
    obtain st2 mo where c: "CompileModule env st1 src p ps = (st2, mo)" by fastforce
    show ?thesis
    proof (cases mo)
      case None
      with assms \<open>modules st p = None\<close> s Some c no_compile show ?thesis by simp
    next
      case m: (Some m)
      show ?thesis
      proof (cases "module_path_by_id st2 (script_id m)")
        case (Some q)
        with assms \<open>modules st p = None\<close> s \<open>so = Some src\<close> c m assert show ?thesis by simp
      next
        case None
        with assms \<open>modules st p = None\<close> s \<open>so = Some src\<close> c m
        obtain lres where
          "load_requests n env (registered st2 p m) (remove_filename env p) (module_requests m) ps
             = Some lres"
          "res = (case lres of Inl a \<Rightarrow> Inl a
              | Inr (st4, completed) \<Rightarrow> Inr (st4, if completed then Some m else None))"
          by (auto simp: Let_def split: option.splits sum.splits)
        with requests[OF \<open>modules st p = None\<close> _ _ None] s \<open>so = Some src\<close> c m
        show ?thesis by blast
      qed
    qed
  qed
qed

lemma load_requests_Cons_cases [consumes 1, case_names invalid known abort failed loaded]:
  assumes "load_requests n env st d (spec # rs) ps = Some res"
  obtains
    (invalid) "\<not> IsValidImport spec"
      "res = Inr (ThrowError st (MakeInvalidImportError spec), False)"
  | (known) "IsValidImport spec" "modules st (resolve_import env d spec) \<noteq> None"
      "load_requests n env st d rs ps = Some res"
  | (abort) a where "IsValidImport spec" "modules st (resolve_import env d spec) = None"
      "LoadModuleTree n env st (resolve_import env d spec) (ps @ [resolve_import env d spec])
         = Some (Inl a)" "res = Inl a"
  | (failed) st1 where "IsValidImport spec" "modules st (resolve_import env d spec) = None"
      "LoadModuleTree n env st (resolve_import env d spec) (ps @ [resolve_import env d spec])
         = Some (Inr (st1, None))" "res = Inr (st1, False)"
  | (loaded) st1 m where "IsValidImport spec" "modules st (resolve_import env d spec) = None"
      "LoadModuleTree n env st (resolve_import env d spec) (ps @ [resolve_import env d spec])
         = Some (Inr (st1, Some m))" "load_requests n env st1 d rs ps = Some res"
proof (cases "IsValidImport spec")
  case False
  with assms invalid show ?thesis by simp
next
  case valid: True
  show ?thesis
  proof (cases "modules st (resolve_import env d spec)")
    case (Some m)
    with assms valid known show ?thesis by simp
  next
    case None
    show ?thesis
    proof (cases "LoadModuleTree n env st (resolve_import env d spec)
                    (ps @ [resolve_import env d spec])")
      case None
      with assms valid \<open>modules st _ = None\<close> show ?thesis by (simp add: Let_def)
    next
      case (Some tres)
      show ?thesis
      proof (cases tres)
        case (Inl a)
        with assms valid \<open>modules st _ = None\<close> Some abort show ?thesis by (simp add: Let_def)
      next
        case (Inr pr)
        obtain st1 r where pr: "pr = (st1, r)" by fastforce
        show ?thesis
        proof (cases r)
          case None
          with assms valid \<open>modules st _ = None\<close> Some Inr pr failed show ?thesis
            by (simp add: Let_def)
        next
          case (Some m)
          with assms valid \<open>modules st _ = None\<close> \<open>LoadModuleTree n env st _ _ = Some tres\<close> Inr pr
            loaded show ?thesis
            by (simp add: Let_def)
        qed
      qed
    qed
  qed
qed

subsection \<open>Facts about one step\<close>

lemma LoadModuleSource_registry:
  "LoadModuleSource env st p ps = (st', r) \<Longrightarrow>
     modules st' = modules st \<and> module_path_by_id st' = module_path_by_id st
     \<and> next_script_id st' = next_script_id st"
  by (auto simp: LoadModuleSource_def ThrowError_def Let_def split: if_splits sum.splits)

lemma CompileModule_registry:
  "CompileModule env st src p ps = (st', r) \<Longrightarrow>
     modules st' = modules st \<and> module_path_by_id st' = module_path_by_id st"
  by (auto simp: CompileModule_def ThrowError_def split: sum.splits)

lemma CompileModule_Some:
  "CompileModule env st src p ps = (st', Some m) \<Longrightarrow>
     v8_CompileModule env src p = Inr (module_requests m) \<and> script_id m = next_script_id st
     \<and> resource_name m = p \<and> st' = st\<lparr>next_script_id := next_script_id st + 1\<rparr>"
  by (auto simp: CompileModule_def ThrowError_def split: sum.splits)

lemma LoadModuleSource_independent:
  "snd (LoadModuleSource env st p ps) = snd (LoadModuleSource env st' p ps')"
  by (simp add: LoadModuleSource_def Let_def split: sum.splits)

subsection \<open>A relation kept by every step is kept by the load\<close>

lemma load_rel:
  assumes refl: "\<And>s. R s s"
    and trans: "\<And>a b c. R a b \<Longrightarrow> R b c \<Longrightarrow> R a c"
    and thr: "\<And>s e. R s (ThrowError s e)"
    and src: "\<And>s p ps s1 r. LoadModuleSource env s p ps = (s1, r) \<Longrightarrow> R s s1"
    and cmp: "\<And>s source p ps s1 r. CompileModule env s source p ps = (s1, r) \<Longrightarrow> R s s1"
    and reg: "\<And>s p m. modules s p = None \<Longrightarrow> module_path_by_id s (script_id m) = None \<Longrightarrow>
                R s (registered s p m)"
  shows "LoadModuleTree n env st p ps = Some (Inr (st', r)) \<Longrightarrow> R st st'"
    and "load_requests n env st d rs ps = Some (Inr (st', b)) \<Longrightarrow> R st st'"
proof -
  have step: "R st st'"
    if IH: "\<And>st p ps st' r. LoadModuleTree n env st p ps = Some (Inr (st', r)) \<Longrightarrow> R st st'"
      and run: "load_requests n env st d rs ps = Some (Inr (st', b))"
    for n st d rs ps st' b
    using run
  proof (induction rs arbitrary: st)
    case Nil
    then show ?case by (simp add: refl)
  next
    case (Cons spec rs)
    from Cons.prems show ?case
    proof (cases rule: load_requests_Cons_cases)
      case invalid
      then show ?thesis by (simp add: thr)
    next
      case known
      from known(3) show ?thesis by (rule Cons.IH)
    next
      case (abort a)
      then show ?thesis by simp
    next
      case (failed st1)
      then show ?thesis using IH by auto
    next
      case (loaded st1 m)
      from loaded(3) have "R st st1" by (rule IH)
      moreover from loaded(4) have "R st1 st'" by (rule Cons.IH)
      ultimately show ?thesis by (rule trans)
    qed
  qed
  have tree: "R st st'" if "LoadModuleTree n env st p ps = Some (Inr (st', r))"
    for n st p ps st' r
    using that
  proof (induction n arbitrary: st p ps st' r)
    case 0
    then show ?case by simp
  next
    case (Suc n)
    from Suc.prems show ?case
    proof (cases rule: LoadModuleTree_Suc_cases)
      case (known m)
      then show ?thesis by (simp add: refl)
    next
      case (no_source st1)
      then show ?thesis using src by auto
    next
      case (no_compile st1 source st2)
      then show ?thesis using src cmp trans by blast
    next
      case (assert st1 source st2 m)
      then show ?thesis by simp
    next
      case (requests st1 source st2 m lres)
      from requests(6) obtain b where lres: "lres = Inr (st', b)"
        by (auto split: sum.splits prod.splits)
      have "modules st2 p = None"
        using requests(1-3) LoadModuleSource_registry CompileModule_registry by metis
      then have a: "R st2 (registered st2 p m)" using reg requests(4) by simp
      from requests(5) lres
      have l: "load_requests n env (registered st2 p m) (remove_filename env p)
                 (module_requests m) ps = Some (Inr (st', b))" by simp
      have b: "R (registered st2 p m) st'"
        by (rule step[where n = n, OF _ l]) (rule Suc.IH)
      have "R st st1" using src requests(2) by blast
      moreover have "R st1 st2" using cmp requests(3) by blast
      ultimately show ?thesis using a b trans by blast
    qed
  qed
  show "LoadModuleTree n env st p ps = Some (Inr (st', r)) \<Longrightarrow> R st st'"
    by (rule tree)
  show "load_requests n env st d rs ps = Some (Inr (st', b)) \<Longrightarrow> R st st'"
    using step tree by blast
qed

subsection \<open>The registry only grows\<close>

lemma registry_kept_refl: "registry_kept st st"
  by (simp add: registry_kept_def)

lemma registry_kept_trans: "registry_kept a b \<Longrightarrow> registry_kept b c \<Longrightarrow> registry_kept a c"
  by (auto simp: registry_kept_def intro: map_le_trans)

lemma registry_kept_modules:
  "registry_kept st st' \<Longrightarrow> modules st p = Some m \<Longrightarrow> modules st' p = Some m"
  by (auto simp: registry_kept_def map_le_def dom_def)

lemma registry_kept_ids:
  "registry_kept st st' \<Longrightarrow> module_path_by_id st i = Some p \<Longrightarrow> module_path_by_id st' i = Some p"
  by (auto simp: registry_kept_def map_le_def dom_def)

lemma registry_kept_dom: "registry_kept st st' \<Longrightarrow> dom (modules st) \<subseteq> dom (modules st')"
  by (auto simp: registry_kept_def dest: map_le_implies_dom_le)

lemma load_registry_kept:
  shows LoadModuleTree_registry_kept:
    "LoadModuleTree n env st p ps = Some (Inr (st', r)) \<Longrightarrow> registry_kept st st'"
  and load_requests_registry_kept:
    "load_requests n env st d rs ps = Some (Inr (st', b)) \<Longrightarrow> registry_kept st st'"
proof -
  have 1: "\<And>s. registry_kept s s" by (rule registry_kept_refl)
  have 2: "\<And>a b c. registry_kept a b \<Longrightarrow> registry_kept b c \<Longrightarrow> registry_kept a c"
    by (rule registry_kept_trans)
  have 3: "\<And>s e. registry_kept s (ThrowError s e)"
    by (simp add: registry_kept_def ThrowError_def)
  have 4: "\<And>s p ps s1 r. LoadModuleSource env s p ps = (s1, r) \<Longrightarrow> registry_kept s s1"
    by (auto simp: registry_kept_def dest: LoadModuleSource_registry)
  have 5: "\<And>s source p ps s1 r. CompileModule env s source p ps = (s1, r) \<Longrightarrow> registry_kept s s1"
    by (auto simp: registry_kept_def dest: CompileModule_registry)
  have 6: "\<And>s p m. modules s p = None \<Longrightarrow> module_path_by_id s (script_id m) = None \<Longrightarrow>
          registry_kept s (registered s p m)"
    by (auto simp: registry_kept_def map_le_def)
  show "LoadModuleTree n env st p ps = Some (Inr (st', r)) \<Longrightarrow> registry_kept st st'"
    by (rule load_rel(1)[where R = registry_kept and env = env, OF 1 2 3 4 5 6])
  show "load_requests n env st d rs ps = Some (Inr (st', b)) \<Longrightarrow> registry_kept st st'"
    by (rule load_rel(2)[where R = registry_kept and env = env, OF 1 2 3 4 5 6])
qed

subsection \<open>What the load leaves alone\<close>

lemma loader_frame_refl: "loader_frame st st"
  by (simp add: loader_frame_def)

lemma loader_frame_trans: "loader_frame a b \<Longrightarrow> loader_frame b c \<Longrightarrow> loader_frame a c"
  by (simp add: loader_frame_def)

lemma load_frame:
  shows LoadModuleTree_frame:
    "LoadModuleTree n env st p ps = Some (Inr (st', r)) \<Longrightarrow> loader_frame st st'"
  and load_requests_frame:
    "load_requests n env st d rs ps = Some (Inr (st', b)) \<Longrightarrow> loader_frame st st'"
proof -
  have 1: "\<And>s. loader_frame s s" by (rule loader_frame_refl)
  have 2: "\<And>a b c. loader_frame a b \<Longrightarrow> loader_frame b c \<Longrightarrow> loader_frame a c"
    by (rule loader_frame_trans)
  have 3: "\<And>s e. loader_frame s (ThrowError s e)"
    by (simp add: loader_frame_def ThrowError_def)
  have 4: "\<And>s p ps s1 r. LoadModuleSource env s p ps = (s1, r) \<Longrightarrow> loader_frame s s1"
    by (auto simp: loader_frame_def LoadModuleSource_def ThrowError_def Let_def
             split: if_splits sum.splits)
  have 5: "\<And>s source p ps s1 r. CompileModule env s source p ps = (s1, r) \<Longrightarrow> loader_frame s s1"
    by (auto simp: loader_frame_def CompileModule_def ThrowError_def split: sum.splits)
  have 6: "\<And>s p m. modules s p = None \<Longrightarrow> module_path_by_id s (script_id m) = None \<Longrightarrow>
          loader_frame s (registered s p m)"
    by (simp add: loader_frame_def)
  show "LoadModuleTree n env st p ps = Some (Inr (st', r)) \<Longrightarrow> loader_frame st st'"
    by (rule load_rel(1)[where R = loader_frame and env = env, OF 1 2 3 4 5 6])
  show "load_requests n env st d rs ps = Some (Inr (st', b)) \<Longrightarrow> loader_frame st st'"
    by (rule load_rel(2)[where R = loader_frame and env = env, OF 1 2 3 4 5 6])
qed

subsection \<open>The exception slot tells failure from success\<close>

lemma LoadModuleSource_exception:
  "LoadModuleSource env st p ps = (st', r) \<Longrightarrow>
     (case r of None \<Rightarrow> exception st' \<noteq> None | Some source \<Rightarrow> exception st' = exception st)"
  by (auto simp: LoadModuleSource_def ThrowError_def Let_def split: if_splits sum.splits)

lemma CompileModule_exception:
  "CompileModule env st source p ps = (st', r) \<Longrightarrow>
     (case r of None \<Rightarrow> exception st' \<noteq> None | Some m \<Rightarrow> exception st' = exception st)"
  by (auto simp: CompileModule_def ThrowError_def split: sum.splits)

lemma load_exception:
  shows LoadModuleTree_exception:
    "LoadModuleTree n env st p ps = Some (Inr (st', r)) \<Longrightarrow>
       (case r of None \<Rightarrow> exception st' \<noteq> None | Some m \<Rightarrow> exception st' = exception st)"
  and load_requests_exception:
    "load_requests n env st d rs ps = Some (Inr (st', b)) \<Longrightarrow>
       (if b then exception st' = exception st else exception st' \<noteq> None)"
proof -
  let ?T = "\<lambda>st st' r. case r of None \<Rightarrow> exception st' \<noteq> None
                          | Some (m::jsmodule) \<Rightarrow> exception st' = exception st"
  let ?L = "\<lambda>st st' b. if b then exception st' = exception st else exception st' \<noteq> None"
  have step: "?L st st' b"
    if IH: "\<And>st p ps st' r. LoadModuleTree n env st p ps = Some (Inr (st', r)) \<Longrightarrow> ?T st st' r"
      and run: "load_requests n env st d rs ps = Some (Inr (st', b))"
    for n st d rs ps st' b
    using run
  proof (induction rs arbitrary: st)
    case Nil
    then show ?case by auto
  next
    case (Cons spec rs)
    from Cons.prems show ?case
    proof (cases rule: load_requests_Cons_cases)
      case invalid
      then show ?thesis by (auto simp: ThrowError_def)
    next
      case known
      from known(3) show ?thesis by (rule Cons.IH)
    next
      case (abort a)
      then show ?thesis by simp
    next
      case (failed st1)
      from IH[OF failed(3)] failed(4) show ?thesis by auto
    next
      case (loaded st1 m)
      from IH[OF loaded(3)] have "exception st1 = exception st" by simp
      with Cons.IH[OF loaded(4)] show ?thesis by auto
    qed
  qed
  have tree: "?T st st' r" if "LoadModuleTree n env st p ps = Some (Inr (st', r))"
    for n st p ps st' r
    using that
  proof (induction n arbitrary: st p ps st' r)
    case 0
    then show ?case by simp
  next
    case (Suc n)
    from Suc.prems show ?case
    proof (cases rule: LoadModuleTree_Suc_cases)
      case (known m)
      then show ?thesis by auto
    next
      case (no_source st1)
      then show ?thesis using LoadModuleSource_exception[OF no_source(2)] by auto
    next
      case (no_compile st1 source st2)
      then show ?thesis using CompileModule_exception[OF no_compile(3)] by auto
    next
      case (assert st1 source st2 m)
      then show ?thesis by simp
    next
      case (requests st1 source st2 m lres)
      from requests(6) obtain b where lres: "lres = Inr (st', b)"
        and r: "r = (if b then Some m else None)"
        by (auto split: sum.splits prod.splits)
      from requests(5) lres
      have l: "load_requests n env (registered st2 p m) (remove_filename env p)
                 (module_requests m) ps = Some (Inr (st', b))" by simp
      have "?L (registered st2 p m) st' b"
        by (rule step[OF _ l]) (rule Suc.IH)
      moreover have "exception st1 = exception st"
        using LoadModuleSource_exception[OF requests(2)] by simp
      moreover have "exception st2 = exception st1"
        using CompileModule_exception[OF requests(3)] by simp
      ultimately show ?thesis using r by (auto split: if_splits)
    qed
  qed
  show "LoadModuleTree n env st p ps = Some (Inr (st', r)) \<Longrightarrow> ?T st st' r"
    by (rule tree)
  show "load_requests n env st d rs ps = Some (Inr (st', b)) \<Longrightarrow> ?L st st' b"
    using step tree by blast
qed

subsection \<open>The indexes stay in agreement and the assertion holds\<close>

lemma registry_ok_registered:
  assumes ok: "registry_ok s" and p: "modules s p = None"
    and i: "module_path_by_id s (script_id m) = None"
    and lt: "script_id m < next_script_id s"
  shows "registry_ok (registered s p m)"
proof -
  from ok have a: "\<And>q m'. modules s q = Some m' \<Longrightarrow> module_path_by_id s (script_id m') = Some q"
    and b: "\<And>j q. module_path_by_id s j = Some q \<Longrightarrow> \<exists>m'. modules s q = Some m' \<and> script_id m' = j"
    and c: "\<And>j q. module_path_by_id s j = Some q \<Longrightarrow> j < next_script_id s"
    unfolding registry_ok_def by blast+
  have 1: "module_path_by_id (registered s p m) (script_id m') = Some q"
    if "modules (registered s p m) q = Some m'" for q m'
  proof (cases "q = p")
    case True
    with that show ?thesis by simp
  next
    case False
    with that have "modules s q = Some m'" by simp
    from a[OF this] i False show ?thesis by auto
  qed
  have 2: "\<exists>m'. modules (registered s p m) q = Some m' \<and> script_id m' = j"
    if "module_path_by_id (registered s p m) j = Some q" for j q
  proof (cases "j = script_id m")
    case True
    with that show ?thesis by simp
  next
    case False
    with that have "module_path_by_id s j = Some q" by simp
    from b[OF this] p show ?thesis by auto
  qed
  have 3: "j < next_script_id (registered s p m)"
    if "module_path_by_id (registered s p m) j = Some q" for j q
    using that lt c by (cases "j = script_id m") auto
  show ?thesis unfolding registry_ok_def using 1 2 3 by blast
qed

lemma registry_ok_Js_new: "registry_ok (Js_new base)"
  by (simp add: registry_ok_def Js_new_def)

lemma registry_ok_ThrowError: "registry_ok (ThrowError s e) = registry_ok s"
  by (simp add: registry_ok_def ThrowError_def)

lemma LoadModuleSource_registry_ok:
  "LoadModuleSource env st p ps = (st', r) \<Longrightarrow> registry_ok st \<Longrightarrow> registry_ok st'"
  by (drule LoadModuleSource_registry) (simp add: registry_ok_def)

lemma CompileModule_registry_ok:
  assumes c: "CompileModule env st source p ps = (st', r)" and ok: "registry_ok st"
  shows "registry_ok st' \<and> (\<forall>m. r = Some m \<longrightarrow>
        module_path_by_id st' (script_id m) = None \<and> script_id m < next_script_id st')"
proof (cases r)
  case None
  with c have "modules st' = modules st \<and> module_path_by_id st' = module_path_by_id st
      \<and> next_script_id st' = next_script_id st"
    by (auto simp: CompileModule_def ThrowError_def split: sum.splits)
  with ok None show ?thesis by (simp add: registry_ok_def)
next
  case (Some m)
  note s = CompileModule_Some[OF c[unfolded Some]]
  from ok have lt: "\<And>j q. module_path_by_id st j = Some q \<Longrightarrow> j < next_script_id st"
    unfolding registry_ok_def by blast
  have fresh: "module_path_by_id st (script_id m) = None"
  proof (cases "module_path_by_id st (script_id m)")
    case None
    then show ?thesis .
  next
    case (Some q)
    from lt[OF this] s show ?thesis by simp
  qed
  have "registry_ok st'"
    using ok s unfolding registry_ok_def by (auto intro: less_trans dest: lt)
  with fresh s Some show ?thesis by simp
qed

lemma load_registry_ok:
  shows LoadModuleTree_registry_ok:
    "registry_ok st \<Longrightarrow> LoadModuleTree n env st p ps = Some res \<Longrightarrow>
       \<exists>st' r. res = Inr (st', r) \<and> registry_ok st'"
  and load_requests_registry_ok:
    "registry_ok st \<Longrightarrow> load_requests n env st d rs ps = Some lres \<Longrightarrow>
       \<exists>st' b. lres = Inr (st', b) \<and> registry_ok st'"
proof -
  have step: "\<exists>st' b. lres = Inr (st', b) \<and> registry_ok st'"
    if IH: "\<And>st p ps res. registry_ok st \<Longrightarrow> LoadModuleTree n env st p ps = Some res \<Longrightarrow>
              \<exists>st' r. res = Inr (st', r) \<and> registry_ok st'"
      and ok: "registry_ok st"
      and run: "load_requests n env st d rs ps = Some lres"
    for n st d rs ps lres
    using ok run
  proof (induction rs arbitrary: st)
    case Nil
    then show ?case by auto
  next
    case (Cons spec rs)
    from Cons.prems(2) show ?case
    proof (cases rule: load_requests_Cons_cases)
      case invalid
      then show ?thesis using Cons.prems(1) by (auto simp: registry_ok_ThrowError)
    next
      case known
      from Cons.prems(1) known(3) show ?thesis by (rule Cons.IH)
    next
      case (abort a)
      from IH[OF Cons.prems(1) abort(3)] show ?thesis by simp
    next
      case (failed st1)
      from IH[OF Cons.prems(1) failed(3)] failed(4) show ?thesis by auto
    next
      case (loaded st1 m)
      from IH[OF Cons.prems(1) loaded(3)] have "registry_ok st1" by simp
      from this loaded(4) show ?thesis by (rule Cons.IH)
    qed
  qed
  have tree: "\<exists>st' r. res = Inr (st', r) \<and> registry_ok st'"
    if "registry_ok st" "LoadModuleTree n env st p ps = Some res"
    for n st p ps res
    using that
  proof (induction n arbitrary: st p ps res)
    case 0
    then show ?case by simp
  next
    case (Suc n)
    from Suc.prems(2) show ?case
    proof (cases rule: LoadModuleTree_Suc_cases)
      case (known m)
      then show ?thesis using Suc.prems(1) by simp
    next
      case (no_source st1)
      from LoadModuleSource_registry_ok[OF no_source(2) Suc.prems(1)] no_source(3)
      show ?thesis by simp
    next
      case (no_compile st1 source st2)
      have "registry_ok st1"
        using LoadModuleSource_registry_ok[OF no_compile(2) Suc.prems(1)] .
      from CompileModule_registry_ok[OF no_compile(3) this] no_compile(4)
      show ?thesis by simp
    next
      case (assert st1 source st2 m)
      have "registry_ok st1"
        using LoadModuleSource_registry_ok[OF assert(2) Suc.prems(1)] .
      from CompileModule_registry_ok[OF assert(3) this] assert(4) show ?thesis by simp
    next
      case (requests st1 source st2 m lres)
      have ok1: "registry_ok st1"
        using LoadModuleSource_registry_ok[OF requests(2) Suc.prems(1)] .
      note c = CompileModule_registry_ok[OF requests(3) ok1]
      have "modules st2 p = None"
        using requests(1-3) LoadModuleSource_registry CompileModule_registry by metis
      with c have ok3: "registry_ok (registered st2 p m)"
        by (intro registry_ok_registered) auto
      have "\<exists>st' b. lres = Inr (st', b) \<and> registry_ok st'"
        by (rule step[OF _ ok3 requests(5)]) (rule Suc.IH)
      with requests(6) show ?thesis by auto
    qed
  qed
  show "registry_ok st \<Longrightarrow> LoadModuleTree n env st p ps = Some res \<Longrightarrow>
       \<exists>st' r. res = Inr (st', r) \<and> registry_ok st'"
    by (rule tree)
  show "registry_ok st \<Longrightarrow> load_requests n env st d rs ps = Some lres \<Longrightarrow>
       \<exists>st' b. lres = Inr (st', b) \<and> registry_ok st'"
    using step tree by blast
qed

section \<open>How a failure travels up\<close>






subsection \<open>The example environment, field by field\<close>

lemma demo_env_fields:
  "GzipUncompress demo_env = drop 3"
  "kEmbeddedConsoleSource demo_env = ''gz:''"
  "kEmbeddedWelcomeSource demo_env = ''gz:./leaf.js''"
  "remove_filename demo_env = posix_remove_filename"
  "path_append demo_env = posix_path_append"
  "lexically_normal demo_env = posix_lexically_normal"
  "relative demo_env = posix_relative"
  "v8_InstantiateModule demo_env
     = (\<lambda>st m. (map (\<lambda>specifier. (specifier, m)) (module_requests m), None))"
  "v8_ResolverNew demo_env = (\<lambda>st. True)"
  by (simp_all add: demo_env_def)

lemma demo_ReadFile:
  "ReadFile demo_env p = (case map_of demo_files p of
                             Some content \<Rightarrow> Inr content
                           | None \<Rightarrow> Inl (''Failed to read file: '' @ p))"
  by (simp add: demo_env_def)

lemma demo_CompileModule:
  "v8_CompileModule demo_env source name =
     (if source = ''syntax error''
      then Inl (VOther (Some ''SyntaxError: Unexpected identifier'') ''object'')
      else Inr (filter (\<lambda>l. l \<noteq> []) (split_on (CHR 0x0A) [] source)))"
  by (simp add: demo_env_def)

lemma demo_Message:
  "v8_Message demo_env v = \<lparr>message_get = ''Uncaught '' @ ToString v, message_stack_trace = None\<rparr>"
  by (simp add: demo_env_def)

lemma demo_paths:
  "posix_lexically_normal (posix_path_append ''/app'' ''./a.js'') = ''/app/a.js''"
  "posix_lexically_normal (posix_path_append ''/app'' ''./lib/../a.js'') = ''/app/a.js''"
  "posix_lexically_normal (posix_path_append ''/app'' ''./leaf.js'') = ''/app/leaf.js''"
  by (simp_all add: posix_lexically_normal_def posix_path_append_def)

lemma demo_valid:
  "IsValidImport ''./a.js''" "IsValidImport ''./lib/../a.js''" "IsValidImport ''./leaf.js''"
  "\<not> IsValidImport ''lodash''"
  by (simp_all add: IsValidImport_def StartsWith_def)

lemma demo_ScriptCompile:
  "v8_ScriptCompile demo_env source =
     (if source = ''syntax error''
      then Some (VOther (Some ''SyntaxError: Unexpected identifier'') ''object'')
      else None)"
  by (simp add: demo_env_def)

lemma demo_Run:
  "v8_Run demo_env st source =
     (if source = ''suppress()'' then ([CallSuppressNextScriptResult], Inr demo_undefined)
      else if source = ''throw'' then ([], Inl (VError ''thrown''))
      else if source = ''import''
      then ([CallImportDynamic (VString ''<console>'') ''./a.js''],
            Inr (VOther (Some ''[object Promise]'') ''object''))
      else ([], Inr (VString source)))"
  by (simp add: demo_env_def)

lemma demo_Evaluate:
  "v8_Evaluate demo_env st m =
     (if resource_name m = ''/app/async.js'' then ([], EvalPromise Pending)
      else if resource_name m = ''/app/reject.js''
      then ([], EvalPromise (Rejected (VError ''boom'')))
      else if resource_name m = ''/app/importer.js''
      then ([CallImportDynamic (VString ''/app/importer.js'') ''./leaf.js''],
            EvalPromise (Fulfilled demo_undefined))
      else ([], EvalPromise (Fulfilled demo_undefined)))"
  by (simp add: demo_env_def)

lemmas demo_eval = demo_env_fields demo_ReadFile demo_CompileModule demo_Evaluate demo_files_def
  LoadModuleSource_def CompileModule_def LoadModuleByPath_def ImportDynamic_path_def
  run_next_task_def resolves_ok_def ResolveModule_def settle_resolver_def
  ThrowError_def IsValidImport_def StartsWith_def
  posix_lexically_normal_def posix_remove_filename_def posix_path_append_def Let_def






section \<open>Properties of the calls made by a running script\<close>

lemma script_frame_refl: "script_frame st st"
  by (simp add: script_frame_def)

lemma script_frame_trans:
  assumes "script_frame a b" "script_frame b c"
  shows "script_frame a c"
proof -
  from assms have "dynamic_imports a \<subseteq>\<^sub>m dynamic_imports c"
    unfolding script_frame_def by (blast intro: map_le_trans)
  moreover from assms have "\<exists>more. promises c = promises a @ more"
    unfolding script_frame_def by (metis append.assoc)
  moreover from assms have "\<exists>more. task_queue c = task_queue a @ more"
    unfolding script_frame_def by (metis append.assoc)
  moreover from assms have "\<exists>more. delegate_calls c = delegate_calls a @ more"
    unfolding script_frame_def by (metis append.assoc)
  ultimately show ?thesis using assms unfolding script_frame_def by simp
qed

lemma ImportDynamic_pending:
  assumes "v8_ResolverNew env st" "IsValidImport spec"
    "ref = ''<console>'' \<or> modules st ref \<noteq> None"
    "dynamic_imports st (dynamic_import_path env st ref spec) = Some resolver"
  shows "ImportDynamic env st (VString ref) spec
           = Inr (st\<lparr>promises := promises st @ [Pending]\<rparr>, Some resolver)"
  using assms by (auto simp: ImportDynamic_def Let_def)

lemma ImportDynamic_new:
  assumes "v8_ResolverNew env st" "IsValidImport spec"
    "ref = ''<console>'' \<or> modules st ref \<noteq> None"
    "dynamic_imports st (dynamic_import_path env st ref spec) = None"
  shows "ImportDynamic env st (VString ref) spec
           = Inr (st\<lparr>promises := promises st @ [Pending],
                     dynamic_imports := (dynamic_imports st)
                        (dynamic_import_path env st ref spec \<mapsto> length (promises st)),
                     task_queue := task_queue st @ [dynamic_import_path env st ref spec]\<rparr>,
                  Some (length (promises st)))"
  using assms by (auto simp: ImportDynamic_def Let_def)

lemma ImportDynamic_invalid:
  assumes "v8_ResolverNew env st" "\<not> IsValidImport spec"
  shows "ImportDynamic env st (VString ref) spec
           = Inr (st\<lparr>promises := promises st @ [Rejected (VString (MakeInvalidImportError spec))]\<rparr>,
                  Some (length (promises st)))"
  using assms by (simp add: ImportDynamic_def Let_def settle_resolver_def)

lemma ImportDynamic_cases [consumes 1, case_names no_resolver invalid pending new]:
  assumes "ImportDynamic env st referrer spec = Inr (st', r)"
  obtains
    (no_resolver) "\<not> v8_ResolverNew env st" "st' = st" "r = None"
  | (invalid) ref where "referrer = VString ref" "v8_ResolverNew env st" "\<not> IsValidImport spec"
      "st' = st\<lparr>promises := promises st @ [Rejected (VString (MakeInvalidImportError spec))]\<rparr>"
      "r = Some (length (promises st))"
  | (pending) ref resolver where "referrer = VString ref" "v8_ResolverNew env st"
      "IsValidImport spec" "ref = ''<console>'' \<or> modules st ref \<noteq> None"
      "dynamic_imports st (dynamic_import_path env st ref spec) = Some resolver"
      "st' = st\<lparr>promises := promises st @ [Pending]\<rparr>" "r = Some resolver"
  | (new) ref where "referrer = VString ref" "v8_ResolverNew env st"
      "IsValidImport spec" "ref = ''<console>'' \<or> modules st ref \<noteq> None"
      "dynamic_imports st (dynamic_import_path env st ref spec) = None"
      "st' = st\<lparr>promises := promises st @ [Pending],
                 dynamic_imports := (dynamic_imports st)
                    (dynamic_import_path env st ref spec \<mapsto> length (promises st)),
                 task_queue := task_queue st @ [dynamic_import_path env st ref spec]\<rparr>"
      "r = Some (length (promises st))"
proof (cases "v8_ResolverNew env st")
  case False
  with assms have "st' = st" "r = None" by (simp_all add: ImportDynamic_def)
  with False show ?thesis by (rule no_resolver)
next
  case resolver: True
  show ?thesis
  proof (cases referrer)
    case (VString ref)
    from assms have run: "ImportDynamic env st (VString ref) spec = Inr (st', r)"
      unfolding VString .
    show ?thesis
    proof (cases "IsValidImport spec")
      case False
      from run ImportDynamic_invalid[OF resolver False, of ref]
      have "Inr (st', r) = (Inr (st\<lparr>promises := promises st
                 @ [Rejected (VString (MakeInvalidImportError spec))]\<rparr>,
               Some (length (promises st))) :: failure + js \<times> nat option)"
        by (rule trans[OF sym])
      then have "st' = st\<lparr>promises := promises st @ [Rejected (VString (MakeInvalidImportError spec))]\<rparr>"
        "r = Some (length (promises st))"
        by blast+
      with VString resolver False show ?thesis by (rule invalid)
    next
      case valid: True
      show ?thesis
      proof (cases "ref = ''<console>'' \<or> modules st ref \<noteq> None")
        case False
        with run resolver valid have False
          by (simp add: ImportDynamic_def Let_def)
        then show ?thesis ..
      next
        case ok: True
        show ?thesis
        proof (cases "dynamic_imports st (dynamic_import_path env st ref spec)")
          case None
          from run ImportDynamic_new[OF resolver valid ok None]
          have "Inr (st', r) = (Inr (st\<lparr>promises := promises st @ [Pending],
                 dynamic_imports := (dynamic_imports st)
                    (dynamic_import_path env st ref spec \<mapsto> length (promises st)),
                 task_queue := task_queue st @ [dynamic_import_path env st ref spec]\<rparr>,
               Some (length (promises st))) :: failure + js \<times> nat option)"
            by (rule trans[OF sym])
          then have "st' = st\<lparr>promises := promises st @ [Pending],
                 dynamic_imports := (dynamic_imports st)
                    (dynamic_import_path env st ref spec \<mapsto> length (promises st)),
                 task_queue := task_queue st @ [dynamic_import_path env st ref spec]\<rparr>"
            "r = Some (length (promises st))"
            by blast+
          with VString resolver valid ok None show ?thesis by (rule new)
        next
          case (Some q)
          from run ImportDynamic_pending[OF resolver valid ok Some]
          have "Inr (st', r) = (Inr (st\<lparr>promises := promises st @ [Pending]\<rparr>, Some q)
                  :: failure + js \<times> nat option)"
            by (rule trans[OF sym])
          then have "st' = st\<lparr>promises := promises st @ [Pending]\<rparr>" "r = Some q"
            by blast+
          with VString resolver valid ok Some show ?thesis by (rule pending)
        qed
      qed
    qed
  next
    case (VModuleNamespace x)
    with assms resolver have False by (simp add: ImportDynamic_def Let_def)
    then show ?thesis ..
  next
    case VSymbolObject
    with assms resolver have False by (simp add: ImportDynamic_def Let_def)
    then show ?thesis ..
  next
    case (VSymbol x)
    with assms resolver have False by (simp add: ImportDynamic_def Let_def)
    then show ?thesis ..
  next
    case (VError x)
    with assms resolver have False by (simp add: ImportDynamic_def Let_def)
    then show ?thesis ..
  next
    case (VOther x y)
    with assms resolver have False by (simp add: ImportDynamic_def Let_def)
    then show ?thesis ..
  qed
qed


lemma ImportDynamic_script_frame:
  assumes "ImportDynamic env st referrer spec = Inr (st', r)"
  shows "script_frame st st'"
  using assms
  by (cases rule: ImportDynamic_cases) (auto simp: script_frame_def map_le_def)

lemma run_reaction_same:
  "base_path (run_reaction outcome st r) = base_path st
   \<and> modules (run_reaction outcome st r) = modules st
   \<and> module_path_by_id (run_reaction outcome st r) = module_path_by_id st
   \<and> next_script_id (run_reaction outcome st r) = next_script_id st
   \<and> file_reads (run_reaction outcome st r) = file_reads st
   \<and> exception (run_reaction outcome st r) = exception st
   \<and> suppress_next_script_result (run_reaction outcome st r) = suppress_next_script_result st
   \<and> dynamic_imports (run_reaction outcome st r) = dynamic_imports st
   \<and> promises (run_reaction outcome st r) = promises st
   \<and> task_queue (run_reaction outcome st r) = task_queue st
   \<and> reactions (run_reaction outcome st r) = reactions st
   \<and> (\<exists>more. delegate_calls (run_reaction outcome st r) = delegate_calls st @ more)"
  by (cases outcome; cases r)
     (simp_all add: OnMainModuleResolve_def OnMainModuleFailure_def OnModuleFailure_def
        delegate_OnMainModuleLoaded_def ReportException_value_def)

lemma foldl_run_reaction_same:
  "base_path (foldl (run_reaction outcome) st rs) = base_path st
   \<and> modules (foldl (run_reaction outcome) st rs) = modules st
   \<and> module_path_by_id (foldl (run_reaction outcome) st rs) = module_path_by_id st
   \<and> next_script_id (foldl (run_reaction outcome) st rs) = next_script_id st
   \<and> file_reads (foldl (run_reaction outcome) st rs) = file_reads st
   \<and> exception (foldl (run_reaction outcome) st rs) = exception st
   \<and> suppress_next_script_result (foldl (run_reaction outcome) st rs)
       = suppress_next_script_result st
   \<and> dynamic_imports (foldl (run_reaction outcome) st rs) = dynamic_imports st
   \<and> promises (foldl (run_reaction outcome) st rs) = promises st
   \<and> task_queue (foldl (run_reaction outcome) st rs) = task_queue st
   \<and> reactions (foldl (run_reaction outcome) st rs) = reactions st
   \<and> (\<exists>more. delegate_calls (foldl (run_reaction outcome) st rs) = delegate_calls st @ more)"
proof (induction rs arbitrary: st)
  case Nil
  then show ?case by simp
next
  case (Cons r rs)
  note a = run_reaction_same[of outcome st r]
  note b = Cons.IH[of "run_reaction outcome st r"]
  from a b have "\<exists>more. delegate_calls (foldl (run_reaction outcome) (run_reaction outcome st r) rs)
                   = delegate_calls st @ more"
    by (metis append.assoc)
  with a b show ?case by simp
qed

lemma settle_module_promise_same:
  "base_path (settle_module_promise st i outcome) = base_path st
   \<and> modules (settle_module_promise st i outcome) = modules st
   \<and> module_path_by_id (settle_module_promise st i outcome) = module_path_by_id st
   \<and> next_script_id (settle_module_promise st i outcome) = next_script_id st
   \<and> file_reads (settle_module_promise st i outcome) = file_reads st
   \<and> exception (settle_module_promise st i outcome) = exception st
   \<and> suppress_next_script_result (settle_module_promise st i outcome)
       = suppress_next_script_result st
   \<and> dynamic_imports (settle_module_promise st i outcome) = dynamic_imports st
   \<and> promises (settle_module_promise st i outcome) = promises st
   \<and> task_queue (settle_module_promise st i outcome) = task_queue st
   \<and> (\<exists>more. delegate_calls (settle_module_promise st i outcome) = delegate_calls st @ more)"
proof (cases "outcome = Pending")
  case True
  then show ?thesis by (simp add: settle_module_promise_def)
next
  case False
  let ?st = "st\<lparr>reactions := filter (\<lambda>(j, r). j \<noteq> i) (reactions st)\<rparr>"
  let ?rs = "map snd (filter (\<lambda>(j, r). j = i) (reactions st))"
  from False have e: "settle_module_promise st i outcome = foldl (run_reaction outcome) ?st ?rs"
    by (simp add: settle_module_promise_def)
  from foldl_run_reaction_same[of outcome ?st ?rs] show ?thesis
    unfolding e by simp
qed

lemma settle_module_promise_script_frame:
  "script_frame st (settle_module_promise st i outcome)"
  using settle_module_promise_same[of st i outcome] by (simp add: script_frame_def)


lemma SuppressNextScriptResult_script_frame:
  "script_frame st (SuppressNextScriptResult st)"
  by (simp add: script_frame_def SuppressNextScriptResult_def)

lemma host_calls_script_frame:
  "host_calls env st calls = Inr st' \<Longrightarrow> script_frame st st'"
proof (induction calls arbitrary: st)
  case Nil
  then show ?case by (simp add: script_frame_refl)
next
  case (Cons c calls)
  show ?case
  proof (cases c)
    case CallSuppressNextScriptResult
    with Cons.prems have "host_calls env (SuppressNextScriptResult st) calls = Inr st'" by simp
    from Cons.IH[OF this] SuppressNextScriptResult_script_frame[of st]
    show ?thesis by (rule script_frame_trans[rotated])
  next
    case (CallImportDynamic referrer specifier)
    with Cons.prems obtain st1 promise where
      i: "ImportDynamic env st referrer specifier = Inr (st1, promise)"
      and r: "host_calls env st1 calls = Inr st'"
      by (auto split: sum.splits)
    from ImportDynamic_script_frame[OF i] Cons.IH[OF r]
    show ?thesis by (rule script_frame_trans)
  next
    case (CallContinuations i outcome)
    with Cons.prems have "host_calls env (settle_module_promise st i outcome) calls = Inr st'"
      by simp
    from Cons.IH[OF this] settle_module_promise_script_frame[of st i outcome]
    show ?thesis by (rule script_frame_trans[rotated])
  qed
qed


section \<open>Properties of activation\<close>

lemma LoadModuleByPath_cases [consumes 1, case_names load_failed instantiate_failed
    evaluate_threw rejected pending fulfilled]:
  assumes "LoadModuleByPath n env st p is_main = Some (Inr (st', r))"
  obtains
    (load_failed) "LoadModuleTree n env st p [p] = Some (Inr (st', None))" "r = None"
  | (instantiate_failed) st1 m resolves exc where
      "LoadModuleTree n env st p [p] = Some (Inr (st1, Some m))"
      "v8_InstantiateModule env st1 m = (resolves, Some exc)" "resolves_ok env st1 resolves"
      "st' = st1\<lparr>exception := Some exc\<rparr>" "r = None"
  | (evaluate_threw) st1 m resolves calls st2 exc where
      "LoadModuleTree n env st p [p] = Some (Inr (st1, Some m))"
      "v8_InstantiateModule env st1 m = (resolves, None)" "resolves_ok env st1 resolves"
      "v8_Evaluate env st1 m = (calls, EvalThrew exc)" "host_calls env st1 calls = Inr st2"
      "st' = st2\<lparr>exception := Some exc\<rparr>" "r = None"
  | (rejected) st1 m resolves calls st2 v where
      "LoadModuleTree n env st p [p] = Some (Inr (st1, Some m))"
      "v8_InstantiateModule env st1 m = (resolves, None)" "resolves_ok env st1 resolves"
      "v8_Evaluate env st1 m = (calls, EvalPromise (Rejected v))"
      "host_calls env st1 calls = Inr st2"
      "st' = st2\<lparr>exception := Some v\<rparr>" "r = None"
  | (pending) st1 m resolves calls st2 where
      "LoadModuleTree n env st p [p] = Some (Inr (st1, Some m))"
      "v8_InstantiateModule env st1 m = (resolves, None)" "resolves_ok env st1 resolves"
      "v8_Evaluate env st1 m = (calls, EvalPromise Pending)"
      "host_calls env st1 calls = Inr st2"
      "st' = st2\<lparr>reactions := reactions st2 @
               [(script_id m, if is_main then MainModuleReaction else ModuleFailureReaction)]\<rparr>"
      "r = Some m"
  | (fulfilled) st1 m resolves calls st2 v where
      "LoadModuleTree n env st p [p] = Some (Inr (st1, Some m))"
      "v8_InstantiateModule env st1 m = (resolves, None)" "resolves_ok env st1 resolves"
      "v8_Evaluate env st1 m = (calls, EvalPromise (Fulfilled v))"
      "host_calls env st1 calls = Inr st2"
      "st' = (if is_main then delegate_OnMainModuleLoaded st2 else st2)" "r = Some m"
proof -
  from assms obtain st1 r1 where t: "LoadModuleTree n env st p [p] = Some (Inr (st1, r1))"
    by (auto simp: LoadModuleByPath_def split: option.splits sum.splits)
  show ?thesis
  proof (cases r1)
    case None
    with assms t have "st' = st1" "r = None" by (simp_all add: LoadModuleByPath_def)
    with t None show ?thesis using load_failed by simp
  next
    case (Some m)
    obtain resolves inst where i: "v8_InstantiateModule env st1 m = (resolves, inst)"
      by fastforce
    show ?thesis
    proof (cases "resolves_ok env st1 resolves")
      case False
      with assms t Some i show ?thesis by (simp add: LoadModuleByPath_def)
    next
      case ok: True
      show ?thesis
      proof (cases inst)
        case (Some exc)
        with assms t \<open>r1 = Some m\<close> i ok have "st' = st1\<lparr>exception := Some exc\<rparr>" "r = None"
          by (simp_all add: LoadModuleByPath_def)
        with t \<open>r1 = Some m\<close> i ok Some show ?thesis using instantiate_failed by simp
      next
        case None
        obtain calls ev where e: "v8_Evaluate env st1 m = (calls, ev)" by fastforce
        show ?thesis
        proof (cases "host_calls env st1 calls")
          case (Inl a)
          with assms t \<open>r1 = Some m\<close> i ok None e show ?thesis
            by (simp add: LoadModuleByPath_def)
        next
          case (Inr st2)
          note facts = t[unfolded \<open>r1 = Some m\<close>] i[unfolded None] ok
          show ?thesis
          proof (cases ev)
            case (EvalThrew exc)
            with assms t \<open>r1 = Some m\<close> i ok None e Inr
            have "st' = st2\<lparr>exception := Some exc\<rparr>" "r = None"
              by (simp_all add: LoadModuleByPath_def)
            with facts e[unfolded EvalThrew] Inr show ?thesis by (rule evaluate_threw)
          next
            case (EvalPromise ps)
            show ?thesis
            proof (cases ps)
              case Pending
              with assms t \<open>r1 = Some m\<close> i ok None e Inr EvalPromise
              have "st' = st2\<lparr>reactions := reactions st2 @
                 [(script_id m, if is_main then MainModuleReaction else ModuleFailureReaction)]\<rparr>"
                "r = Some m"
                by (simp_all add: LoadModuleByPath_def)
              with facts e[unfolded EvalPromise Pending] Inr show ?thesis by (rule pending)
            next
              case (Fulfilled v)
              with assms t \<open>r1 = Some m\<close> i ok None e Inr EvalPromise
              have "st' = (if is_main then delegate_OnMainModuleLoaded st2 else st2)" "r = Some m"
                by (simp_all add: LoadModuleByPath_def)
              with facts e[unfolded EvalPromise Fulfilled] Inr show ?thesis by (rule fulfilled)
            next
              case (Rejected v)
              with assms t \<open>r1 = Some m\<close> i ok None e Inr EvalPromise
              have "st' = st2\<lparr>exception := Some v\<rparr>" "r = None"
                by (simp_all add: LoadModuleByPath_def)
              with facts e[unfolded EvalPromise Rejected] Inr show ?thesis by (rule rejected)
            qed
          qed
        qed
      qed
    qed
  qed
qed

text \<open>What a load with its activation leaves alone, and what it only adds to.\<close>

lemma LoadModuleTree_session:
  assumes "LoadModuleTree n env st p ps = Some (Inr (st', r))"
  shows "base_path st' = base_path st \<and> promises st' = promises st
         \<and> dynamic_imports st' = dynamic_imports st \<and> task_queue st' = task_queue st
         \<and> suppress_next_script_result st' = suppress_next_script_result st
         \<and> delegate_calls st' = delegate_calls st \<and> reactions st' = reactions st"
  using LoadModuleTree_frame[OF assms] by (simp add: loader_frame_def)

lemma LoadModuleByPath_session:
  assumes "LoadModuleByPath n env st p is_main = Some (Inr (st', r))"
  shows "base_path st' = base_path st
         \<and> (\<exists>more. promises st' = promises st @ more)
         \<and> dynamic_imports st \<subseteq>\<^sub>m dynamic_imports st'
         \<and> (\<exists>more. task_queue st' = task_queue st @ more)
         \<and> (\<exists>more. delegate_calls st' = delegate_calls st @ more)
         \<and> (suppress_next_script_result st \<longrightarrow> suppress_next_script_result st')"
  using assms
proof (cases rule: LoadModuleByPath_cases)
  case load_failed
  from LoadModuleTree_session[OF load_failed(1)] show ?thesis by simp
next
  case (instantiate_failed st1 m resolves exc)
  from LoadModuleTree_session[OF instantiate_failed(1)] instantiate_failed(4)
  show ?thesis by simp
next
  case (evaluate_threw st1 m resolves calls st2 exc)
  from LoadModuleTree_session[OF evaluate_threw(1)]
    host_calls_script_frame[OF evaluate_threw(5)] evaluate_threw(6)
  show ?thesis by (simp add: script_frame_def)
next
  case (rejected st1 m resolves calls st2 v)
  from LoadModuleTree_session[OF rejected(1)]
    host_calls_script_frame[OF rejected(5)] rejected(6)
  show ?thesis by (simp add: script_frame_def)
next
  case (pending st1 m resolves calls st2)
  from LoadModuleTree_session[OF pending(1)]
    host_calls_script_frame[OF pending(5)] pending(6)
  show ?thesis by (simp add: script_frame_def)
next
  case (fulfilled st1 m resolves calls st2 v)
  from host_calls_script_frame[OF fulfilled(5)]
  have "\<exists>more. delegate_calls st' = delegate_calls st1 @ more"
    unfolding fulfilled(6) script_frame_def delegate_OnMainModuleLoaded_def
    by (cases is_main) auto
  with LoadModuleTree_session[OF fulfilled(1)]
    host_calls_script_frame[OF fulfilled(5)] fulfilled(6)
  show ?thesis by (simp add: script_frame_def delegate_OnMainModuleLoaded_def)
qed

lemma LoadModuleByPath_registry_kept:
  assumes "LoadModuleByPath n env st p is_main = Some (Inr (st', r))"
  shows "registry_kept st st'"
  using assms
proof (cases rule: LoadModuleByPath_cases)
  case load_failed
  then show ?thesis by (simp add: LoadModuleTree_registry_kept)
next
  case (instantiate_failed st1 m resolves exc)
  from LoadModuleTree_registry_kept[OF instantiate_failed(1)] instantiate_failed(4)
  show ?thesis by (simp add: registry_kept_def)
next
  case (evaluate_threw st1 m resolves calls st2 exc)
  from LoadModuleTree_registry_kept[OF evaluate_threw(1)]
    host_calls_script_frame[OF evaluate_threw(5)] evaluate_threw(6)
  show ?thesis by (simp add: registry_kept_def script_frame_def)
next
  case (rejected st1 m resolves calls st2 v)
  from LoadModuleTree_registry_kept[OF rejected(1)]
    host_calls_script_frame[OF rejected(5)] rejected(6)
  show ?thesis by (simp add: registry_kept_def script_frame_def)
next
  case (pending st1 m resolves calls st2)
  from LoadModuleTree_registry_kept[OF pending(1)]
    host_calls_script_frame[OF pending(5)] pending(6)
  show ?thesis by (simp add: registry_kept_def script_frame_def)
next
  case (fulfilled st1 m resolves calls st2 v)
  from LoadModuleTree_registry_kept[OF fulfilled(1)]
    host_calls_script_frame[OF fulfilled(5)] fulfilled(6)
  show ?thesis by (simp add: registry_kept_def script_frame_def delegate_OnMainModuleLoaded_def)
qed


lemma host_calls_exception:
  "host_calls env st calls = Inr st' \<Longrightarrow> exception st' = exception st"
  by (drule host_calls_script_frame) (simp add: script_frame_def)

lemma LoadModuleByPath_exception:
  assumes "LoadModuleByPath n env st p is_main = Some (Inr (st', r))"
  shows "case r of None \<Rightarrow> exception st' \<noteq> None | Some m \<Rightarrow> exception st' = exception st"
  using assms
proof (cases rule: LoadModuleByPath_cases)
  case load_failed
  from LoadModuleTree_exception[OF load_failed(1)] load_failed(2) show ?thesis by simp
next
  case (instantiate_failed st1 m resolves exc)
  then show ?thesis by simp
next
  case (evaluate_threw st1 m resolves calls st2 exc)
  then show ?thesis by simp
next
  case (rejected st1 m resolves calls st2 v)
  then show ?thesis by simp
next
  case (pending st1 m resolves calls st2)
  from LoadModuleTree_exception[OF pending(1)] host_calls_exception[OF pending(5)] pending(6,7)
  show ?thesis by simp
next
  case (fulfilled st1 m resolves calls st2 v)
  from LoadModuleTree_exception[OF fulfilled(1)] host_calls_exception[OF fulfilled(5)]
    fulfilled(6,7)
  show ?thesis by (simp add: delegate_OnMainModuleLoaded_def)
qed

lemma settle_resolver_settled:
  "resolver < length (promises st) \<Longrightarrow> outcome \<noteq> Pending \<Longrightarrow>
     promises (settle_resolver st resolver outcome) ! resolver \<noteq> Pending"
  by (simp add: settle_resolver_def)

lemma settle_resolver_sets:
  "resolver < length (promises st) \<Longrightarrow> promises st ! resolver = Pending \<Longrightarrow>
     promises (settle_resolver st resolver outcome) ! resolver = outcome"
  by (simp add: settle_resolver_def)


text \<open>The posted closure returns whenever the load it starts returns, and then the
  promise it took from the table is settled: rejected with the exception caught when
  the load gave no module, fulfilled with the namespace of the module otherwise.\<close>

lemma ImportDynamic_path_cases [consumes 2, case_names aborted failed loaded]:
  assumes run: "ImportDynamic_path n env st path_str = Some res"
    and entry: "dynamic_imports st path_str = Some resolver"
  obtains
    (aborted) "res = Inl AssertFailed"
      "LoadModuleByPath n env
         (st\<lparr>exception := None, dynamic_imports := (dynamic_imports st)(path_str := None)\<rparr>)
         path_str False = Some (Inl AssertFailed)"
  | (failed) st2 exc where
      "LoadModuleByPath n env
         (st\<lparr>exception := None, dynamic_imports := (dynamic_imports st)(path_str := None)\<rparr>)
         path_str False = Some (Inr (st2, None))"
      "exception st2 = Some exc"
      "res = Inr (settle_resolver (st2\<lparr>exception := None\<rparr>) resolver (Rejected exc))"
  | (loaded) st2 m where
      "LoadModuleByPath n env
         (st\<lparr>exception := None, dynamic_imports := (dynamic_imports st)(path_str := None)\<rparr>)
         path_str False = Some (Inr (st2, Some m))"
      "res = Inr ((settle_resolver st2 resolver
                     (Fulfilled (VModuleNamespace (resource_name m))))\<lparr>exception := None\<rparr>)"
proof -
  let ?st1 = "st\<lparr>exception := None, dynamic_imports := (dynamic_imports st)(path_str := None)\<rparr>"
  from run entry obtain lres where l: "LoadModuleByPath n env ?st1 path_str False = Some lres"
    by (auto simp: ImportDynamic_path_def Let_def split: option.splits)
  show ?thesis
  proof (cases lres)
    case (Inl a)
    with run entry l have "res = Inl AssertFailed"
      by (cases a) (simp add: ImportDynamic_path_def Let_def)
    moreover from l Inl have "LoadModuleByPath n env ?st1 path_str False = Some (Inl AssertFailed)"
      by (cases a) simp
    ultimately show ?thesis by (rule aborted)
  next
    case (Inr pr)
    obtain st2 r where pr: "pr = (st2, r)" by fastforce
    note l' = l[unfolded Inr pr]
    show ?thesis
    proof (cases r)
      case None
      from LoadModuleByPath_exception[OF l'] None obtain exc where e: "exception st2 = Some exc"
        by auto
      with run entry l' None
      have "res = Inr (settle_resolver (st2\<lparr>exception := None\<rparr>) resolver (Rejected exc))"
        by (simp add: ImportDynamic_path_def Let_def)
      with l'[unfolded None] e show ?thesis by (rule failed)
    next
      case (Some m)
      with run entry l'
      have "res = Inr ((settle_resolver st2 resolver
                     (Fulfilled (VModuleNamespace (resource_name m))))\<lparr>exception := None\<rparr>)"
        by (simp add: ImportDynamic_path_def Let_def)
      with l'[unfolded Some] show ?thesis by (rule loaded)
    qed
  qed
qed

lemma ImportDynamic_path_settles:
  assumes run: "ImportDynamic_path n env st path_str = Some (Inr st')"
    and entry: "dynamic_imports st path_str = Some resolver"
    and bound: "resolver < length (promises st)"
  shows "promises st' ! resolver \<noteq> Pending"
  using run entry
proof (cases rule: ImportDynamic_path_cases)
  case aborted
  then show ?thesis by simp
next
  case (failed st2 exc)
  from LoadModuleByPath_session[OF failed(1)] bound
  have "resolver < length (promises (st2\<lparr>exception := None\<rparr>))" by auto
  from settle_resolver_settled[OF this, of "Rejected exc"] failed(3) show ?thesis by simp
next
  case (loaded st2 m)
  from LoadModuleByPath_session[OF loaded(1)] bound
  have "resolver < length (promises st2)" by auto
  from settle_resolver_settled[OF this, of "Fulfilled (VModuleNamespace (resource_name m))"]
    loaded(2)
  show ?thesis by simp
qed




subsection \<open>The three ways \<open>ExecuteScript\<close> returns\<close>

lemma host_calls_flag:
  "host_calls env st calls = Inr st' \<Longrightarrow> suppress_next_script_result st \<Longrightarrow>
     suppress_next_script_result st'"
  by (drule host_calls_script_frame) (simp add: script_frame_def)

lemma ExecuteScript_compile_failed:
  assumes "v8_ScriptCompile env source = Some exc"
  shows "ExecuteScript env st source
           = Inr (st\<lparr>exception := None,
                     delegate_calls := delegate_calls st @
                       [OnJavascriptException (message_get (v8_Message env exc))
                          (case message_stack_trace (v8_Message env exc) of
                             None \<Rightarrow> [] | Some frames \<Rightarrow> map frame_string frames)]\<rparr>,
                  None)"
  using assms by (simp add: ExecuteScript_def ReportException_def Let_def)

lemma ExecuteScript_threw:
  assumes "v8_ScriptCompile env source = None"
    "v8_Run env (st\<lparr>exception := None\<rparr>) source = (calls, Inl thrown)"
    "host_calls env (st\<lparr>exception := None\<rparr>) calls = Inr st1"
  shows "ExecuteScript env st source
           = Inr (st1\<lparr>exception := None, suppress_next_script_result := False,
                      delegate_calls := delegate_calls st1 @
                        [OnJavascriptException (message_get (v8_Message env thrown))
                           (case message_stack_trace (v8_Message env thrown) of
                              None \<Rightarrow> [] | Some frames \<Rightarrow> map frame_string frames)]\<rparr>,
                  None)"
  using assms by (simp add: ExecuteScript_def ReportException_def Let_def)

lemma ExecuteScript_completed:
  assumes "v8_ScriptCompile env source = None"
    "v8_Run env (st\<lparr>exception := None\<rparr>) source = (calls, Inr v)"
    "host_calls env (st\<lparr>exception := None\<rparr>) calls = Inr st1"
  shows "ExecuteScript env st source
           = (if suppress_next_script_result st1
              then Inr (st1\<lparr>suppress_next_script_result := False\<rparr>, None)
              else Inr (st1, Some (ToString v)))"
  using assms by (simp add: ExecuteScript_def Let_def)


section \<open>Deduplication of dynamic imports\<close>



section \<open>Deferral of dynamic imports\<close>

text \<open>
  Claim C4.  A dynamic import request with a valid specifier and no pending entry for
  its path does not load anything: it returns a new promise, which is pending, stores
  the entry for the path and appends one closure to the task queue, and changes nothing
  else of the session (the registry, the script identifiers, the files read, the calls
  to the delegate and the continuations are as before), whether or not the path is
  registered.  The load happens in the posted closure: when the queue was empty, the
  next turn of the queue calls \<open>LoadModuleByPath\<close> for the path and settles the promise
  with what it returns.
\<close>

theorem ImportDynamic_defers:
  "v8_ResolverNew env st \<and> IsValidImport spec
     \<and> (ref = ''<console>'' \<or> modules st ref \<noteq> None)
     \<and> dynamic_imports st (dynamic_import_path env st ref spec) = None \<longrightarrow>
   (\<exists>st'. ImportDynamic env st (VString ref) spec = Inr (st', Some (length (promises st)))
      \<and> st' = st\<lparr>promises := promises st @ [Pending],
                 dynamic_imports := (dynamic_imports st)
                    (dynamic_import_path env st ref spec \<mapsto> length (promises st)),
                 task_queue := task_queue st @ [dynamic_import_path env st ref spec]\<rparr>
      \<and> promises st' ! length (promises st) = Pending
      \<and> modules st' = modules st \<and> module_path_by_id st' = module_path_by_id st
      \<and> next_script_id st' = next_script_id st \<and> file_reads st' = file_reads st
      \<and> delegate_calls st' = delegate_calls st \<and> reactions st' = reactions st
      \<and> exception st' = exception st
      \<and> (task_queue st = [] \<longrightarrow>
           run_next_task n env st'
             = (case LoadModuleByPath n env
                       (st\<lparr>promises := promises st @ [Pending], exception := None\<rparr>)
                       (dynamic_import_path env st ref spec) False of
                  None \<Rightarrow> None
                | Some (Inl a) \<Rightarrow> Some (Inl a)
                | Some (Inr (st2, None)) \<Rightarrow>
                    (case exception st2 of
                       None \<Rightarrow> Some (Inl AssertFailed)
                     | Some exc \<Rightarrow>
                         Some (Inr (settle_resolver (st2\<lparr>exception := None\<rparr>)
                                      (length (promises st)) (Rejected exc))))
                | Some (Inr (st2, Some m)) \<Rightarrow>
                    Some (Inr ((settle_resolver st2 (length (promises st))
                                  (Fulfilled (VModuleNamespace (resource_name m))))
                                 \<lparr>exception := None\<rparr>)))
           \<and> (\<forall>s. run_next_task n env st' = Some (Inr s) \<longrightarrow>
                  promises s ! length (promises st) \<noteq> Pending)))"
proof (intro impI)
  assume a: "v8_ResolverNew env st \<and> IsValidImport spec
     \<and> (ref = ''<console>'' \<or> modules st ref \<noteq> None)
     \<and> dynamic_imports st (dynamic_import_path env st ref spec) = None"
  let ?p = "dynamic_import_path env st ref spec"
  let ?r = "length (promises st)"
  let ?st' = "st\<lparr>promises := promises st @ [Pending],
                  dynamic_imports := (dynamic_imports st)(?p \<mapsto> ?r),
                  task_queue := task_queue st @ [?p]\<rparr>"
  let ?Z = "st\<lparr>promises := promises st @ [Pending], exception := None\<rparr>"
  from a have 1: "ImportDynamic env st (VString ref) spec = Inr (?st', Some ?r)"
    by (intro ImportDynamic_new) auto
  have 2: "run_next_task n env ?st' = ImportDynamic_path n env (?st'\<lparr>task_queue := []\<rparr>) ?p"
    if "task_queue st = []"
    using that by (simp add: run_next_task_def)
  from a have erased: "(dynamic_imports st)(?p := None) = dynamic_imports st"
    by (intro ext) simp
  have same: "?st'\<lparr>task_queue := [], exception := None,
                 dynamic_imports := (dynamic_imports st)(?p := None)\<rparr> = ?Z"
    if "task_queue st = []"
    using that erased by simp
  have 3: "run_next_task n env ?st'
             = (case LoadModuleByPath n env ?Z ?p False of
                  None \<Rightarrow> None
                | Some (Inl a) \<Rightarrow> Some (Inl a)
                | Some (Inr (st2, None)) \<Rightarrow>
                    (case exception st2 of
                       None \<Rightarrow> Some (Inl AssertFailed)
                     | Some exc \<Rightarrow>
                         Some (Inr (settle_resolver (st2\<lparr>exception := None\<rparr>) ?r (Rejected exc))))
                | Some (Inr (st2, Some m)) \<Rightarrow>
                    Some (Inr ((settle_resolver st2 ?r
                                  (Fulfilled (VModuleNamespace (resource_name m))))
                                 \<lparr>exception := None\<rparr>)))"
    if q: "task_queue st = []"
  proof -
    have "ImportDynamic_path n env (?st'\<lparr>task_queue := []\<rparr>) ?p
            = (case LoadModuleByPath n env
                      (?st'\<lparr>task_queue := [], exception := None,
                            dynamic_imports := (dynamic_imports st)(?p := None)\<rparr>) ?p False of
                  None \<Rightarrow> None
                | Some (Inl a) \<Rightarrow> Some (Inl a)
                | Some (Inr (st2, None)) \<Rightarrow>
                    (case exception st2 of
                       None \<Rightarrow> Some (Inl AssertFailed)
                     | Some exc \<Rightarrow>
                         Some (Inr (settle_resolver (st2\<lparr>exception := None\<rparr>) ?r (Rejected exc))))
                | Some (Inr (st2, Some m)) \<Rightarrow>
                    Some (Inr ((settle_resolver st2 ?r
                                  (Fulfilled (VModuleNamespace (resource_name m))))
                                 \<lparr>exception := None\<rparr>)))"
      by (simp add: ImportDynamic_path_def Let_def)
    with 2[OF q] same[OF q] show ?thesis by simp
  qed
  have 4: "promises s ! ?r \<noteq> Pending"
    if q: "task_queue st = []" and run: "run_next_task n env ?st' = Some (Inr s)" for s
  proof -
    from run 2[OF q] have "ImportDynamic_path n env (?st'\<lparr>task_queue := []\<rparr>) ?p = Some (Inr s)"
      by simp
    from ImportDynamic_path_settles[OF this, of ?r] show ?thesis by simp
  qed
  show "\<exists>st'. ImportDynamic env st (VString ref) spec = Inr (st', Some ?r)
      \<and> st' = ?st'
      \<and> promises st' ! ?r = Pending
      \<and> modules st' = modules st \<and> module_path_by_id st' = module_path_by_id st
      \<and> next_script_id st' = next_script_id st \<and> file_reads st' = file_reads st
      \<and> delegate_calls st' = delegate_calls st \<and> reactions st' = reactions st
      \<and> exception st' = exception st
      \<and> (task_queue st = [] \<longrightarrow>
           run_next_task n env st'
             = (case LoadModuleByPath n env ?Z ?p False of
                  None \<Rightarrow> None
                | Some (Inl a) \<Rightarrow> Some (Inl a)
                | Some (Inr (st2, None)) \<Rightarrow>
                    (case exception st2 of
                       None \<Rightarrow> Some (Inl AssertFailed)
                     | Some exc \<Rightarrow>
                         Some (Inr (settle_resolver (st2\<lparr>exception := None\<rparr>) ?r (Rejected exc))))
                | Some (Inr (st2, Some m)) \<Rightarrow>
                    Some (Inr ((settle_resolver st2 ?r
                                  (Fulfilled (VModuleNamespace (resource_name m))))
                                 \<lparr>exception := None\<rparr>)))
           \<and> (\<forall>s. run_next_task n env st' = Some (Inr s) \<longrightarrow> promises s ! ?r \<noteq> Pending))"
  proof (rule exI[of _ ?st'], intro conjI impI allI)
    show "ImportDynamic env st (VString ref) spec = Inr (?st', Some ?r)" by (rule 1)
    show "task_queue st = [] \<Longrightarrow> run_next_task n env ?st'
             = (case LoadModuleByPath n env ?Z ?p False of
                  None \<Rightarrow> None
                | Some (Inl a) \<Rightarrow> Some (Inl a)
                | Some (Inr (st2, None)) \<Rightarrow>
                    (case exception st2 of
                       None \<Rightarrow> Some (Inl AssertFailed)
                     | Some exc \<Rightarrow>
                         Some (Inr (settle_resolver (st2\<lparr>exception := None\<rparr>) ?r (Rejected exc))))
                | Some (Inr (st2, Some m)) \<Rightarrow>
                    Some (Inr ((settle_resolver st2 ?r
                                  (Fulfilled (VModuleNamespace (resource_name m))))
                                 \<lparr>exception := None\<rparr>)))"
      by (rule 3)
    show "\<And>s. task_queue st = [] \<Longrightarrow> run_next_task n env ?st' = Some (Inr s) \<Longrightarrow>
            promises s ! ?r \<noteq> Pending"
      using 4 by blast
  qed simp_all
qed

theorem ImportDynamic_defers_witness:
  "v8_ResolverNew demo_env demo_leaf_loaded \<and> IsValidImport ''./leaf.js''
   \<and> dynamic_import_path demo_env demo_leaf_loaded ''<console>'' ''./leaf.js'' = ''/app/leaf.js''
   \<and> modules demo_leaf_loaded ''/app/leaf.js''
       = Some \<lparr>script_id = 0, resource_name = ''/app/leaf.js'', module_requests = []\<rparr>
   \<and> dynamic_imports demo_leaf_loaded ''/app/leaf.js'' = None
   \<and> task_queue demo_leaf_loaded = []
   \<and> ImportDynamic demo_env demo_leaf_loaded (VString ''<console>'') ''./leaf.js''
       = Inr (demo_leaf_requested, Some 0)
   \<and> promises demo_leaf_requested = [Pending]
   \<and> task_queue demo_leaf_requested = [''/app/leaf.js'']
   \<and> dynamic_imports demo_leaf_requested = [''/app/leaf.js'' \<mapsto> 0]
   \<and> modules demo_leaf_requested = modules demo_leaf_loaded
   \<and> next_script_id demo_leaf_requested = 1
   \<and> file_reads demo_leaf_requested = [''/app/leaf.js'']
   \<and> delegate_calls demo_leaf_requested = []
   \<and> run_next_task (Suc 0) demo_env demo_leaf_requested
       = Some (Inr (demo_leaf_loaded\<lparr>promises := [Fulfilled (VModuleNamespace ''/app/leaf.js'')]\<rparr>))
   \<and> LoadModuleByPath (Suc 0) demo_env (demo_leaf_loaded\<lparr>promises := [Pending]\<rparr>)
         ''/app/leaf.js'' False
       = Some (Inr (demo_leaf_loaded\<lparr>promises := [Pending]\<rparr>,
                    Some \<lparr>script_id = 0, resource_name = ''/app/leaf.js'', module_requests = []\<rparr>))"
proof -
  let ?st = demo_leaf_loaded
  have b: "base_path ?st = ''/app''" "dynamic_imports ?st = Map.empty" "task_queue ?st = []"
    "promises ?st = []" "file_reads ?st = [''/app/leaf.js'']" "delegate_calls ?st = []"
    "modules ?st ''/app/leaf.js''
       = Some \<lparr>script_id = 0, resource_name = ''/app/leaf.js'', module_requests = []\<rparr>"
    "next_script_id ?st = 1" "exception ?st = None"
    by (simp_all add: Js_new_def demo_leaf_loaded_def)
  have p: "resolve_import demo_env ''/app'' ''./leaf.js'' = ''/app/leaf.js''"
    by (simp add: demo_env_fields demo_paths)
  have h: "v8_ResolverNew demo_env ?st" by (simp add: demo_env_fields)
  have hyp: "v8_ResolverNew demo_env ?st \<and> IsValidImport ''./leaf.js''
     \<and> (''<console>'' = ''<console>'' \<or> modules ?st ''<console>'' \<noteq> None)
     \<and> dynamic_imports ?st (dynamic_import_path demo_env ?st ''<console>'' ''./leaf.js'') = None"
    using h demo_valid(3) by (simp add: b)
  have l: "LoadModuleByPath (Suc 0) demo_env (?st\<lparr>promises := [Pending]\<rparr>) ''/app/leaf.js'' False
       = Some (Inr (?st\<lparr>promises := [Pending]\<rparr>,
                    Some \<lparr>script_id = 0, resource_name = ''/app/leaf.js'', module_requests = []\<rparr>))"
    by (simp add: demo_leaf_loaded_def Js_new_def demo_eval)
  have len: "length (promises ?st) = 0" by (simp add: b)
  have p': "dynamic_import_path demo_env ?st ''<console>'' ''./leaf.js'' = ''/app/leaf.js''"
    by (simp add: b p)
  have z: "?st\<lparr>promises := promises ?st @ [Pending], exception := None\<rparr>
             = ?st\<lparr>promises := [Pending]\<rparr>"
    by (simp add: demo_leaf_loaded_def Js_new_def)
  have u: "?st\<lparr>promises := promises ?st @ [Pending],
               dynamic_imports := (dynamic_imports ?st)(''/app/leaf.js'' \<mapsto> 0),
               task_queue := task_queue ?st @ [''/app/leaf.js'']\<rparr> = demo_leaf_requested"
    by (simp add: demo_leaf_requested_def b)
  note t = ImportDynamic_defers[of demo_env ?st "''./leaf.js''" "''<console>''" "Suc 0",
             THEN mp, OF hyp, unfolded p' len z u]
  from t obtain st' where r:
    "ImportDynamic demo_env ?st (VString ''<console>'') ''./leaf.js'' = Inr (st', Some 0)"
    "st' = demo_leaf_requested"
    "task_queue ?st = [] \<longrightarrow> run_next_task (Suc 0) demo_env st'
       = (case LoadModuleByPath (Suc 0) demo_env (?st\<lparr>promises := [Pending]\<rparr>)
                ''/app/leaf.js'' False of
            None \<Rightarrow> None
          | Some (Inl a) \<Rightarrow> Some (Inl a)
          | Some (Inr (st2, None)) \<Rightarrow>
              (case exception st2 of
                 None \<Rightarrow> Some (Inl AssertFailed)
               | Some exc \<Rightarrow>
                   Some (Inr (settle_resolver (st2\<lparr>exception := None\<rparr>) 0 (Rejected exc))))
          | Some (Inr (st2, Some m)) \<Rightarrow>
              Some (Inr ((settle_resolver st2 0
                            (Fulfilled (VModuleNamespace (resource_name m))))
                           \<lparr>exception := None\<rparr>)))"
    by blast
  note s = r(2)
  from r(3)[unfolded l s] b(3)
  have run: "run_next_task (Suc 0) demo_env demo_leaf_requested
       = Some (Inr (?st\<lparr>promises := [Fulfilled (VModuleNamespace ''/app/leaf.js'')]\<rparr>))"
    by (simp add: settle_resolver_def demo_leaf_loaded_def Js_new_def)
  have q: "promises demo_leaf_requested = [Pending]"
    "task_queue demo_leaf_requested = [''/app/leaf.js'']"
    "dynamic_imports demo_leaf_requested = [''/app/leaf.js'' \<mapsto> 0]"
    "modules demo_leaf_requested = modules ?st"
    "next_script_id demo_leaf_requested = 1"
    "file_reads demo_leaf_requested = [''/app/leaf.js'']"
    "delegate_calls demo_leaf_requested = []"
    by (simp_all add: demo_leaf_requested_def b)
  from h demo_valid(3) b(2,3,7) p r(1)[unfolded s] q run l
  show ?thesis by (simp add: b(1))
qed

section \<open>Invalid import specifiers\<close>



section \<open>Virtual modules\<close>

text \<open>
  Claim C7.  For the tokens \<^verbatim>\<open>--console\<close> and \<^verbatim>\<open>--welcome\<close> \<open>LoadModuleSource\<close>
  returns the decompressed embedded source and the session as it was, whatever the
  session (its base path included) and the load stack: no file is read.  Any other
  path beginning with \<^verbatim>\<open>--\<close> throws \<^verbatim>\<open>Invalid module name: <path>\<close> and returns no
  source; the session is otherwise as it was, so no file is read, and the graph load
  of such a path that is not registered fails in that state.  \<open>LoadMainModule\<close> takes
  a name beginning with \<^verbatim>\<open>--\<close> as the path itself, without the base path.
\<close>

theorem virtual_module_source:
  "LoadModuleSource env st ''--console'' paths
     = (st, Some (GzipUncompress env (kEmbeddedConsoleSource env)))
   \<and> LoadModuleSource env st ''--welcome'' paths
     = (st, Some (GzipUncompress env (kEmbeddedWelcomeSource env)))
   \<and> (take 2 path = ''--'' \<and> path \<noteq> ''--console'' \<and> path \<noteq> ''--welcome'' \<longrightarrow>
        LoadModuleSource env st path paths
          = (st\<lparr>exception := Some (VError (''Invalid module name: '' @ path))\<rparr>, None)
        \<and> (modules st path = None \<longrightarrow>
             LoadModuleTree (Suc n) env st path paths
               = Some (Inr (st\<lparr>exception := Some (VError (''Invalid module name: '' @ path))\<rparr>,
                            None))))
   \<and> (take 2 name = ''--'' \<longrightarrow> main_module_path env base name = name)"
  by (simp add: LoadModuleSource_def main_module_path_def ThrowError_def)

theorem virtual_module_source_witness:
  "take 2 ''--bogus'' = ''--'' \<and> ''--bogus'' \<noteq> ''--console'' \<and> ''--bogus'' \<noteq> ''--welcome''
   \<and> modules (Js_new ''/app'') ''--bogus'' = None
   \<and> LoadModuleSource demo_env (Js_new ''/app'') ''--bogus'' [''--bogus'']
       = ((Js_new ''/app'')\<lparr>exception := Some (VError ''Invalid module name: --bogus'')\<rparr>, None)
   \<and> LoadModuleTree (Suc 0) demo_env (Js_new ''/app'') ''--bogus'' [''--bogus'']
       = Some (Inr ((Js_new ''/app'')\<lparr>exception := Some (VError ''Invalid module name: --bogus'')\<rparr>,
                    None))
   \<and> file_reads ((Js_new ''/app'')\<lparr>exception := Some (VError ''Invalid module name: --bogus'')\<rparr>)
       = []
   \<and> LoadModuleSource demo_env (Js_new ''/app'') ''--console'' [''--console'']
       = (Js_new ''/app'', Some [])
   \<and> LoadModuleSource demo_env (Js_new ''/app'') ''--welcome'' [''--welcome'']
       = (Js_new ''/app'', Some ''./leaf.js'')
   \<and> LoadModuleSource demo_env (Js_new ''/elsewhere'') ''--welcome'' [''--welcome'']
       = (Js_new ''/elsewhere'', Some ''./leaf.js'')
   \<and> take 2 ''--welcome'' = ''--''
   \<and> main_module_path demo_env ''/app'' ''--welcome'' = ''--welcome''"
proof -
  note a = virtual_module_source[of demo_env "Js_new ''/app''" "[''--bogus'']" "''--bogus''" 0
          "''--welcome''" "''/app''"]
  note b = virtual_module_source[of demo_env "Js_new ''/app''" "[''--welcome'']" "''--bogus''" 0
          "''--welcome''" "''/app''"]
  note c = virtual_module_source[of demo_env "Js_new ''/elsewhere''" "[''--welcome'']" "''--bogus''" 0
          "''--welcome''" "''/app''"]
  note d = virtual_module_source[of demo_env "Js_new ''/app''" "[''--console'']" "''--bogus''" 0
          "''--welcome''" "''/app''"]
  have h: "take 2 ''--bogus'' = ''--'' \<and> ''--bogus'' \<noteq> ''--console'' \<and> ''--bogus'' \<noteq> ''--welcome''"
    "take 2 ''--welcome'' = ''--''"
    by simp_all
  have m: "modules (Js_new ''/app'') ''--bogus'' = None" "file_reads (Js_new ''/app'') = []"
    by (simp_all add: Js_new_def)
  from a[THEN conjunct2, THEN conjunct2, THEN conjunct1, THEN mp, OF h(1)] m(1)
  have 1: "LoadModuleSource demo_env (Js_new ''/app'') ''--bogus'' [''--bogus'']
       = ((Js_new ''/app'')\<lparr>exception := Some (VError ''Invalid module name: --bogus'')\<rparr>, None)"
    "LoadModuleTree (Suc 0) demo_env (Js_new ''/app'') ''--bogus'' [''--bogus'']
       = Some (Inr ((Js_new ''/app'')\<lparr>exception := Some (VError ''Invalid module name: --bogus'')\<rparr>,
                    None))"
    by simp_all
  from b[THEN conjunct2, THEN conjunct1]
  have 2: "LoadModuleSource demo_env (Js_new ''/app'') ''--welcome'' [''--welcome'']
       = (Js_new ''/app'', Some ''./leaf.js'')"
    by (simp add: demo_env_fields)
  from c[THEN conjunct2, THEN conjunct1]
  have 3: "LoadModuleSource demo_env (Js_new ''/elsewhere'') ''--welcome'' [''--welcome'']
       = (Js_new ''/elsewhere'', Some ''./leaf.js'')"
    by (simp add: demo_env_fields)
  from d[THEN conjunct1]
  have 5: "LoadModuleSource demo_env (Js_new ''/app'') ''--console'' [''--console'']
       = (Js_new ''/app'', Some [])"
    by (simp add: demo_env_fields)
  from a[THEN conjunct2, THEN conjunct2, THEN conjunct2, THEN mp, OF h(2)]
  have 4: "main_module_path demo_env ''/app'' ''--welcome'' = ''--welcome''" .
  from h m 1 2 3 4 5 show ?thesis by simp
qed

section \<open>The diagnostic chain\<close>





section \<open>Inline scripts and the suppression flag\<close>

text \<open>
  Claim C10.  The flag set by \<open>SuppressNextScriptResult\<close> is used up only by a call
  of \<open>ExecuteScript\<close> whose script compiles.  When compilation fails the call returns
  no result, the delegate is told of the exception (one more
  \<^verbatim>\<open>OnJavascriptException\<close> with the text and the frames of the message) and the
  flag is as it was.  When the script compiles and the flag is set at the call, the
  call returns no result and the flag is clear afterwards, both when the run throws
  (the delegate is then told of the exception, after whatever the script itself made
  the host do) and when it completes (the delegate is told nothing more).  So after a
  failed compilation with the flag set, the next call whose script compiles returns
  no result.  The calls that the script makes into the host while it runs are those
  given by the engine; an assertion failing in one of them ends the process, and the
  statement is about the runs in which none does.
\<close>

theorem ExecuteScript_suppress_flag:
  "(v8_ScriptCompile env source = Some exc \<longrightarrow>
      (\<exists>st'. ExecuteScript env st source = Inr (st', None)
         \<and> suppress_next_script_result st' = suppress_next_script_result st
         \<and> delegate_calls st' = delegate_calls st @
              [OnJavascriptException (message_get (v8_Message env exc))
                 (case message_stack_trace (v8_Message env exc) of
                    None \<Rightarrow> [] | Some frames \<Rightarrow> map frame_string frames)]))
   \<and> (v8_ScriptCompile env source = None \<and> suppress_next_script_result st
        \<and> v8_Run env (st\<lparr>exception := None\<rparr>) source = (calls, result)
        \<and> host_calls env (st\<lparr>exception := None\<rparr>) calls = Inr st1 \<longrightarrow>
      (\<exists>st'. ExecuteScript env st source = Inr (st', None)
         \<and> \<not> suppress_next_script_result st'
         \<and> (\<forall>thrown. result = Inl thrown \<longrightarrow>
               delegate_calls st' = delegate_calls st1 @
                 [OnJavascriptException (message_get (v8_Message env thrown))
                    (case message_stack_trace (v8_Message env thrown) of
                       None \<Rightarrow> [] | Some frames \<Rightarrow> map frame_string frames)])
         \<and> (\<forall>v. result = Inr v \<longrightarrow> delegate_calls st' = delegate_calls st1)))
   \<and> (v8_ScriptCompile env source = Some exc \<and> suppress_next_script_result st
        \<and> v8_ScriptCompile env next_source = None
        \<and> ExecuteScript env st source = Inr (st2, r2)
        \<and> v8_Run env (st2\<lparr>exception := None\<rparr>) next_source = (calls3, result3)
        \<and> host_calls env (st2\<lparr>exception := None\<rparr>) calls3 = Inr st3 \<longrightarrow>
      r2 = None \<and> suppress_next_script_result st2
      \<and> (\<exists>st'. ExecuteScript env st2 next_source = Inr (st', None)
            \<and> \<not> suppress_next_script_result st'))"
proof (intro conjI impI)
  assume "v8_ScriptCompile env source = Some exc"
  from ExecuteScript_compile_failed[OF this, of st]
  show "\<exists>st'. ExecuteScript env st source = Inr (st', None)
         \<and> suppress_next_script_result st' = suppress_next_script_result st
         \<and> delegate_calls st' = delegate_calls st @
              [OnJavascriptException (message_get (v8_Message env exc))
                 (case message_stack_trace (v8_Message env exc) of
                    None \<Rightarrow> [] | Some frames \<Rightarrow> map frame_string frames)]"
    by simp
next
  assume a: "v8_ScriptCompile env source = None \<and> suppress_next_script_result st
        \<and> v8_Run env (st\<lparr>exception := None\<rparr>) source = (calls, result)
        \<and> host_calls env (st\<lparr>exception := None\<rparr>) calls = Inr st1"
  then have f: "suppress_next_script_result st1"
    using host_calls_flag[of env "st\<lparr>exception := None\<rparr>" calls st1] by simp
  show "\<exists>st'. ExecuteScript env st source = Inr (st', None)
         \<and> \<not> suppress_next_script_result st'
         \<and> (\<forall>thrown. result = Inl thrown \<longrightarrow>
               delegate_calls st' = delegate_calls st1 @
                 [OnJavascriptException (message_get (v8_Message env thrown))
                    (case message_stack_trace (v8_Message env thrown) of
                       None \<Rightarrow> [] | Some frames \<Rightarrow> map frame_string frames)])
         \<and> (\<forall>v. result = Inr v \<longrightarrow> delegate_calls st' = delegate_calls st1)"
  proof (cases result)
    case (Inl thrown)
    with a have "v8_Run env (st\<lparr>exception := None\<rparr>) source = (calls, Inl thrown)" by simp
    from ExecuteScript_threw[OF _ this, of st1] a Inl show ?thesis by simp
  next
    case (Inr v)
    with a have "v8_Run env (st\<lparr>exception := None\<rparr>) source = (calls, Inr v)" by simp
    from ExecuteScript_completed[OF _ this, of st1] a f Inr show ?thesis by simp
  qed
next
  assume a: "v8_ScriptCompile env source = Some exc \<and> suppress_next_script_result st
        \<and> v8_ScriptCompile env next_source = None
        \<and> ExecuteScript env st source = Inr (st2, r2)
        \<and> v8_Run env (st2\<lparr>exception := None\<rparr>) next_source = (calls3, result3)
        \<and> host_calls env (st2\<lparr>exception := None\<rparr>) calls3 = Inr st3"
  then have c: "v8_ScriptCompile env source = Some exc" by blast
  from ExecuteScript_compile_failed[OF c, of st] a
  show "r2 = None" by simp
  from ExecuteScript_compile_failed[OF c, of st] a
  show f2: "suppress_next_script_result st2" by auto
  from a have f3: "suppress_next_script_result st3"
    using host_calls_flag[of env "st2\<lparr>exception := None\<rparr>" calls3 st3] f2 by simp
  show "\<exists>st'. ExecuteScript env st2 next_source = Inr (st', None)
            \<and> \<not> suppress_next_script_result st'"
  proof (cases result3)
    case (Inl thrown)
    with a have "v8_Run env (st2\<lparr>exception := None\<rparr>) next_source = (calls3, Inl thrown)" by simp
    from ExecuteScript_threw[OF _ this, of st3] a show ?thesis by simp
  next
    case (Inr v)
    with a have "v8_Run env (st2\<lparr>exception := None\<rparr>) next_source = (calls3, Inr v)" by simp
    from ExecuteScript_completed[OF _ this, of st3] a f3 show ?thesis by simp
  qed
qed

theorem ExecuteScript_suppress_flag_witness:
  "v8_ScriptCompile demo_env ''syntax error''
     = Some (VOther (Some ''SyntaxError: Unexpected identifier'') ''object'')
   \<and> v8_ScriptCompile demo_env ''throw'' = None
   \<and> v8_ScriptCompile demo_env ''1 + 1'' = None
   \<and> suppress_next_script_result (SuppressNextScriptResult (Js_new ''/app''))
   \<and> (\<exists>st2. ExecuteScript demo_env (SuppressNextScriptResult (Js_new ''/app'')) ''syntax error''
               = Inr (st2, None)
          \<and> suppress_next_script_result st2
          \<and> delegate_calls st2
              = [OnJavascriptException ''Uncaught SyntaxError: Unexpected identifier'' []]
          \<and> (\<exists>st'. ExecuteScript demo_env st2 ''1 + 1'' = Inr (st', None)
                 \<and> \<not> suppress_next_script_result st'))
   \<and> (\<exists>st'. ExecuteScript demo_env (SuppressNextScriptResult (Js_new ''/app'')) ''throw''
               = Inr (st', None)
          \<and> \<not> suppress_next_script_result st'
          \<and> delegate_calls st' = [OnJavascriptException ''Uncaught Error: thrown'' []])
   \<and> (\<exists>st'. ExecuteScript demo_env (SuppressNextScriptResult (Js_new ''/app'')) ''1 + 1''
               = Inr (st', None)
          \<and> \<not> suppress_next_script_result st'
          \<and> delegate_calls st' = [])"
proof -
  let ?S = "SuppressNextScriptResult (Js_new ''/app'')"
  let ?Z = "?S\<lparr>exception := None\<rparr>"
  let ?E = "VOther (Some ''SyntaxError: Unexpected identifier'') ''object''"
  have c: "v8_ScriptCompile demo_env ''syntax error'' = Some ?E"
    "v8_ScriptCompile demo_env ''throw'' = None" "v8_ScriptCompile demo_env ''1 + 1'' = None"
    by (simp_all add: demo_ScriptCompile)
  have f: "suppress_next_script_result ?S" by (simp add: SuppressNextScriptResult_def)
  have d: "delegate_calls ?S = []" "delegate_calls ?Z = []"
    by (simp_all add: SuppressNextScriptResult_def Js_new_def)
  have m: "message_get (v8_Message demo_env ?E) = ''Uncaught SyntaxError: Unexpected identifier''"
    "message_stack_trace (v8_Message demo_env ?E) = None"
    "message_get (v8_Message demo_env (VError ''thrown'')) = ''Uncaught Error: thrown''"
    "message_stack_trace (v8_Message demo_env (VError ''thrown'')) = None"
    by (simp_all add: demo_Message)
  \<comment> \<open>compilation fails\<close>
  from ExecuteScript_suppress_flag[of demo_env "''syntax error''" ?E ?S "[]" "Inr demo_undefined"
         ?S "''1 + 1''" ?S None "[]" "Inr demo_undefined" ?S, THEN conjunct1, THEN mp, OF c(1)]
  obtain st2 where
    e2: "ExecuteScript demo_env ?S ''syntax error'' = Inr (st2, None)"
    and f2: "suppress_next_script_result st2"
    and d2: "delegate_calls st2
              = [OnJavascriptException ''Uncaught SyntaxError: Unexpected identifier'' []]"
    using f by (auto simp: m d)
  \<comment> \<open>the next script compiles\<close>
  have r3: "v8_Run demo_env (st2\<lparr>exception := None\<rparr>) ''1 + 1'' = ([], Inr (VString ''1 + 1''))"
    by (simp add: demo_Run)
  have h3: "host_calls demo_env (st2\<lparr>exception := None\<rparr>) [] = Inr (st2\<lparr>exception := None\<rparr>)"
    by simp
  from ExecuteScript_suppress_flag[of demo_env "''syntax error''" ?E ?S "[]" "Inr demo_undefined"
         ?S "''1 + 1''" st2 None "[]" "Inr (VString ''1 + 1'')" "st2\<lparr>exception := None\<rparr>",
         THEN conjunct2, THEN conjunct2, THEN mp] c f e2 r3 h3
  obtain st3 where e3: "ExecuteScript demo_env st2 ''1 + 1'' = Inr (st3, None)"
    and f3: "\<not> suppress_next_script_result st3"
    by blast
  \<comment> \<open>the run throws\<close>
  have r4: "v8_Run demo_env ?Z ''throw'' = ([], Inl (VError ''thrown''))"
    by (simp add: demo_Run)
  have h4: "host_calls demo_env ?Z [] = Inr ?Z" by simp
  from ExecuteScript_suppress_flag[of demo_env "''throw''" ?E ?S "[]" "Inl (VError ''thrown'')"
         ?Z "''1 + 1''" ?S None "[]" "Inr demo_undefined" ?S,
         THEN conjunct2, THEN conjunct1, THEN mp] c f r4 h4
  obtain st4 where e4: "ExecuteScript demo_env ?S ''throw'' = Inr (st4, None)"
    and f4: "\<not> suppress_next_script_result st4"
    and d4: "delegate_calls st4 = [OnJavascriptException ''Uncaught Error: thrown'' []]"
    by (auto simp: m d)
  \<comment> \<open>the run completes\<close>
  have r5: "v8_Run demo_env ?Z ''1 + 1'' = ([], Inr (VString ''1 + 1''))"
    by (simp add: demo_Run)
  from ExecuteScript_suppress_flag[of demo_env "''1 + 1''" ?E ?S "[]" "Inr (VString ''1 + 1'')"
         ?Z "''1 + 1''" ?S None "[]" "Inr demo_undefined" ?S,
         THEN conjunct2, THEN conjunct1, THEN mp] c f r5 h4
  obtain st5 where e5: "ExecuteScript demo_env ?S ''1 + 1'' = Inr (st5, None)"
    and f5: "\<not> suppress_next_script_result st5"
    and d5: "delegate_calls st5 = []"
    by (auto simp: d)
  from c f e2 f2 d2 e3 f3 e4 f4 d4 e5 f5 d5 show ?thesis by blast
qed

end
